theory Spec2Isabelle
  imports Complex_Main "HOL-Library.Word" "HOL-Library.Monad_Syntax"
begin

section \<open>Bytes and decimal formatting\<close>

text \<open>
  Go strings and byte slices are sequences of bytes: \<^typ>\<open>string\<close> (a list of 8-bit
  \<^typ>\<open>char\<close>). The control characters the program looks at:
\<close>

definition HT :: char where "HT = CHR 0x09"
definition LF :: char where "LF = CHR 0x0A"
definition VT :: char where "VT = CHR 0x0B"
definition FF :: char where "FF = CHR 0x0C"
definition CR :: char where "CR = CHR 0x0D"
definition SP :: char where "SP = CHR 0x20"
definition DQUOTE :: char where "DQUOTE = CHR 0x22"

definition digitChar :: "nat \<Rightarrow> char" where
  "digitChar d = ''0123456789'' ! d"

text \<open>The verb \<^verbatim>\<open>%d\<close> of \<^verbatim>\<open>fmt.Errorf\<close>: decimal digits, most significant first.\<close>

function showNat :: "nat \<Rightarrow> string" where
  "showNat n = (if n < 10 then [digitChar n] else showNat (n div 10) @ [digitChar (n mod 10)])"
  by pat_completeness auto
termination
  by (relation "measure id") auto

definition showInt :: "int \<Rightarrow> string" where
  "showInt i = (if i < 0 then CHR ''-'' # showNat (nat (- i)) else showNat (nat i))"

text \<open>\<^verbatim>\<open>strings.HasPrefix\<close> and \<^verbatim>\<open>strings.HasSuffix\<close>.\<close>

definition hasPrefix :: "string \<Rightarrow> string \<Rightarrow> bool" where
  "hasPrefix s t = (take (length t) s = t)"

definition hasSuffix :: "string \<Rightarrow> string \<Rightarrow> bool" where
  "hasSuffix s t = (length t \<le> length s \<and> drop (length s - length t) s = t)"


section \<open>The line scanner (\<^verbatim>\<open>bufio.Scanner\<close> with \<^verbatim>\<open>bufio.ScanLines\<close>)\<close>

text \<open>
  \<^verbatim>\<open>bufio.NewScanner\<close> splits its input with \<^verbatim>\<open>ScanLines\<close> and holds one token in a
  buffer that grows up to \<^verbatim>\<open>bufio.MaxScanTokenSize = 64 * 1024\<close> bytes. A token is handed
  out when the line feed ending it is in the buffer, or at the end of the input; when the
  buffer is full (65536 bytes from the start of the token) and holds no line feed,
  \<^verbatim>\<open>Scan\<close> records \<^verbatim>\<open>ErrTooLong\<close>, returns false and the scanner is done. So a line
  is delivered exactly when it has fewer than 65536 bytes before its line feed (or before
  the end of the input). \<^verbatim>\<open>extractMetrics\<close> never looks at \<^verbatim>\<open>scanner.Err()\<close>: to its
  loop, the end of the input and a line that is too long look the same.

  The state of the scanner is the input it has not consumed yet.
\<close>

definition maxScanTokenSize :: nat where
  "maxScanTokenSize = 64 * 1024"

text \<open>\<^verbatim>\<open>dropCR\<close>: one trailing carriage return is removed from a line.\<close>

definition dropCR :: "string \<Rightarrow> string" where
  "dropCR data = (if data \<noteq> [] \<and> last data = CR then butlast data else data)"

text \<open>\<^verbatim>\<open>bytes.IndexByte\<close>: the index of the first occurrence, if there is one.\<close>

fun indexByte :: "string \<Rightarrow> char \<Rightarrow> nat option" where
  "indexByte [] c = None"
| "indexByte (x # xs) c = (if x = c then Some 0 else map_option Suc (indexByte xs c))"

text \<open>
  One call of \<^verbatim>\<open>scanner.Scan()\<close>: \<open>None\<close> when it returns false, otherwise the token
  (\<^verbatim>\<open>scanner.Text()\<close>) and the input that is left.
\<close>

definition Scan :: "string \<Rightarrow> (string \<times> string) option" where
  "Scan input =
     (if input = [] then None
      else case indexByte input LF of
          Some i \<Rightarrow>
            if maxScanTokenSize \<le> i then None
            else Some (dropCR (take i input), drop (i + 1) input)
        | None \<Rightarrow>
            if maxScanTokenSize \<le> length input then None
            else Some (dropCR input, []))"


section \<open>\<^verbatim>\<open>strings.TrimSpace\<close>\<close>

text \<open>
  \<^verbatim>\<open>strings.TrimSpace\<close> removes leading and trailing white space as defined by Unicode
  (\<^verbatim>\<open>unicode.IsSpace\<close>): the ASCII bytes HT, LF, VT, FF, CR and space, and the runes U+0085,
  U+00A0, U+1680, U+2000 to U+200A, U+2028, U+2029, U+202F, U+205F and U+3000. The string is
  decoded as UTF-8, forwards from the front and backwards from the end; a rune at the front
  (at the end) is white space exactly when the string starts (ends) with the UTF-8 encoding
  of one of these runes. An invalid byte decodes as U+FFFD, which is not white space.
\<close>

definition spaceEncodings :: "string list" where
  "spaceEncodings =
    [[HT], [LF], [VT], [FF], [CR], [SP],
     [CHR 0xC2, CHR 0x85], [CHR 0xC2, CHR 0xA0],
     [CHR 0xE1, CHR 0x9A, CHR 0x80],
     [CHR 0xE2, CHR 0x80, CHR 0x80], [CHR 0xE2, CHR 0x80, CHR 0x81],
     [CHR 0xE2, CHR 0x80, CHR 0x82], [CHR 0xE2, CHR 0x80, CHR 0x83],
     [CHR 0xE2, CHR 0x80, CHR 0x84], [CHR 0xE2, CHR 0x80, CHR 0x85],
     [CHR 0xE2, CHR 0x80, CHR 0x86], [CHR 0xE2, CHR 0x80, CHR 0x87],
     [CHR 0xE2, CHR 0x80, CHR 0x88], [CHR 0xE2, CHR 0x80, CHR 0x89],
     [CHR 0xE2, CHR 0x80, CHR 0x8A],
     [CHR 0xE2, CHR 0x80, CHR 0xA8], [CHR 0xE2, CHR 0x80, CHR 0xA9],
     [CHR 0xE2, CHR 0x80, CHR 0xAF],
     [CHR 0xE2, CHR 0x81, CHR 0x9F],
     [CHR 0xE3, CHR 0x80, CHR 0x80]]"

text \<open>The encoding of the white-space rune at the front (at the end) of a string.\<close>

definition leadingSpace :: "string \<Rightarrow> string option" where
  "leadingSpace s = find (hasPrefix s) spaceEncodings"

definition trailingSpace :: "string \<Rightarrow> string option" where
  "trailingSpace s = find (hasSuffix s) spaceEncodings"

function TrimLeftSpace :: "string \<Rightarrow> string" where
  "TrimLeftSpace s =
     (case leadingSpace s of None \<Rightarrow> s | Some t \<Rightarrow> TrimLeftSpace (drop (length t) s))"
  by pat_completeness auto
termination
proof (relation "measure length")
  fix s t
  assume "leadingSpace s = Some t"
  then have "t \<in> set spaceEncodings" and "hasPrefix s t"
    by (auto simp: leadingSpace_def find_Some_iff)
  then have "t \<noteq> []" and "take (length t) s = t"
    by (auto simp: spaceEncodings_def hasPrefix_def)
  then have "s \<noteq> []" by auto
  with \<open>t \<noteq> []\<close> show "(drop (length t) s, s) \<in> measure length" by simp
qed simp

function TrimRightSpace :: "string \<Rightarrow> string" where
  "TrimRightSpace s =
     (case trailingSpace s of None \<Rightarrow> s
      | Some t \<Rightarrow> TrimRightSpace (take (length s - length t) s))"
  by pat_completeness auto
termination
proof (relation "measure length")
  fix s t
  assume "trailingSpace s = Some t"
  then have "t \<in> set spaceEncodings" and "hasSuffix s t"
    by (auto simp: trailingSpace_def find_Some_iff)
  then have "t \<noteq> []" and "length t \<le> length s"
    by (auto simp: spaceEncodings_def hasSuffix_def)
  then have "0 < length t" and "0 < length s" by auto
  then show "(take (length s - length t) s, s) \<in> measure length" by simp
qed simp

definition TrimSpace :: "string \<Rightarrow> string" where
  "TrimSpace s = TrimRightSpace (TrimLeftSpace s)"


text \<open>
  The loop of \<^verbatim>\<open>extractMetrics\<close> (lines 86 to 91): every token is trimmed and kept
  when something is left of it. The recursion ends because every successful \<open>Scan\<close>
  consumes input.
\<close>

function readLines :: "string \<Rightarrow> string list \<Rightarrow> string list" where
  "readLines input lines =
     (case Scan input of
        None \<Rightarrow> lines
      | Some (tok, rest) \<Rightarrow>
          (let line = TrimSpace tok
           in readLines rest (if line \<noteq> [] then lines @ [line] else lines)))"
  by pat_completeness auto
termination
proof (relation "measure (\<lambda>(input, lines). length input)")
  fix input :: string and lines :: "string list" and x2 tok rest line
  assume "Scan input = Some x2" and "(tok, rest) = x2"
  then have "Scan input = Some (tok, rest)" by simp
  then have "length rest < length input"
    by (auto simp: Scan_def split: if_splits option.splits)
  then show "((rest, if line \<noteq> [] then lines @ [line] else lines), input, lines)
      \<in> measure (\<lambda>(input, lines). length input)"
    by simp
qed simp


section \<open>The three patterns\<close>

text \<open>
  Go's \<^verbatim>\<open>regexp\<close> (RE2 syntax): \<^verbatim>\<open>\d\<close> is \<^verbatim>\<open>[0-9]\<close>, \<^verbatim>\<open>\s\<close> is
  \<^verbatim>\<open>[\t\n\f\r ]\<close>, and without flags \<^verbatim>\<open>^\<close> and \<^verbatim>\<open>$\<close> match at the start and at
  the end of the text only. In the three patterns every \<^verbatim>\<open>\d+\<close> is followed by
  \<^verbatim>\<open>\s\<close> or by the end, and every \<^verbatim>\<open>\s+\<close> by a digit or a letter, so a match, when
  there is one, is unique and each repetition takes the longest run of its class: the
  patterns are matched from left to right without backtracking.
\<close>

definition isDigit :: "char \<Rightarrow> bool" where
  "isDigit c = (48 \<le> (of_char c :: nat) \<and> (of_char c :: nat) \<le> 57)"

definition isPerlSpace :: "char \<Rightarrow> bool" where
  "isPerlSpace c = (c = HT \<or> c = LF \<or> c = FF \<or> c = CR \<or> c = SP)"

text \<open>A literal; \<^verbatim>\<open>(\d+)\<close>, giving the captured group; \<^verbatim>\<open>\s+\<close>. Each returns the rest.\<close>

definition literal :: "string \<Rightarrow> string \<Rightarrow> string option" where
  "literal t s = (if hasPrefix s t then Some (drop (length t) s) else None)"

definition digits1 :: "string \<Rightarrow> (string \<times> string) option" where
  "digits1 s =
     (if takeWhile isDigit s = [] then None
      else Some (takeWhile isDigit s, dropWhile isDigit s))"

definition spaces1 :: "string \<Rightarrow> string option" where
  "spaces1 s = (if takeWhile isPerlSpace s = [] then None else Some (dropWhile isPerlSpace s))"

text \<open>\<^verbatim>\<open>^Active connections: (\d+)$\<close>\<close>

definition line1Pattern :: "string \<Rightarrow> string list option" where
  "line1Pattern s =
     do {
       r \<leftarrow> literal ''Active connections: '' s;
       (g1, r) \<leftarrow> digits1 r;
       if r = [] then Some [s, g1] else None
     }"

text \<open>\<^verbatim>\<open>^(\d+)\s+(\d+)\s+(\d+)$\<close>\<close>

definition line3Pattern :: "string \<Rightarrow> string list option" where
  "line3Pattern s =
     do {
       (g1, r) \<leftarrow> digits1 s;
       r \<leftarrow> spaces1 r;
       (g2, r) \<leftarrow> digits1 r;
       r \<leftarrow> spaces1 r;
       (g3, r) \<leftarrow> digits1 r;
       if r = [] then Some [s, g1, g2, g3] else None
     }"

text \<open>\<^verbatim>\<open>^Reading:\s+(\d+)\s+Writing:\s+(\d+)\s+Waiting:\s+(\d+)$\<close>\<close>

definition line4Pattern :: "string \<Rightarrow> string list option" where
  "line4Pattern s =
     do {
       r \<leftarrow> literal ''Reading:'' s;
       r \<leftarrow> spaces1 r;
       (g1, r) \<leftarrow> digits1 r;
       r \<leftarrow> spaces1 r;
       r \<leftarrow> literal ''Writing:'' r;
       r \<leftarrow> spaces1 r;
       (g2, r) \<leftarrow> digits1 r;
       r \<leftarrow> spaces1 r;
       r \<leftarrow> literal ''Waiting:'' r;
       r \<leftarrow> spaces1 r;
       (g3, r) \<leftarrow> digits1 r;
       if r = [] then Some [s, g1, g2, g3] else None
     }"

text \<open>
  \<^verbatim>\<open>FindStringSubmatch\<close> returns nil (here \<open>[]\<close>) when the text does not match, and
  otherwise the whole match followed by the captured groups.
\<close>

definition FindStringSubmatch :: "(string \<Rightarrow> string list option) \<Rightarrow> string \<Rightarrow> string list" where
  "FindStringSubmatch re s = (case re s of None \<Rightarrow> [] | Some m \<Rightarrow> m)"

definition line1Regex :: "string \<Rightarrow> string list" where
  "line1Regex = FindStringSubmatch line1Pattern"

definition line3Regex :: "string \<Rightarrow> string list" where
  "line3Regex = FindStringSubmatch line3Pattern"

definition line4Regex :: "string \<Rightarrow> string list" where
  "line4Regex = FindStringSubmatch line4Pattern"


section \<open>\<^verbatim>\<open>strconv.ParseUint(s, 10, 64)\<close>\<close>

datatype strconvErr = ErrSyntax | ErrRange

record NumError =
  Func :: string
  Num :: string
  Err :: strconvErr

text \<open>
  The loop of \<^verbatim>\<open>ParseUint\<close> for base 10 and 64 bits, on a \<^typ>\<open>64 word\<close> as in Go:
  \<open>cutoff\<close> is \<^verbatim>\<open>maxUint64/10 + 1\<close>, the first value whose tenfold overflows;
  \<open>maxVal\<close> is \<^verbatim>\<open>uint64(1)<<uint(bitSize) - 1\<close>, where the shift by 64 gives 0; an addition
  that wraps around is seen by \<^verbatim>\<open>n1 < n\<close>. A byte that is not a decimal digit is a syntax
  error (a letter is a digit of a base above 10).
\<close>

definition cutoff :: "64 word" where
  "cutoff = 1844674407370955162"

definition maxVal :: "64 word" where
  "maxVal = push_bit 64 1 - 1"

fun parseUintLoop :: "64 word \<Rightarrow> string \<Rightarrow> strconvErr + 64 word" where
  "parseUintLoop n [] = Inr n"
| "parseUintLoop n (c # cs) =
     (if \<not> isDigit c then Inl ErrSyntax
      else if cutoff \<le> n then Inl ErrRange
      else let n' = n * 10; n1 = n' + (of_char c - 48)
           in if n1 < n' \<or> maxVal < n1 then Inl ErrRange else parseUintLoop n1 cs)"

definition ParseUint :: "string \<Rightarrow> NumError + 64 word" where
  "ParseUint s =
     (if s = [] then Inl \<lparr>Func = ''ParseUint'', Num = s, Err = ErrSyntax\<rparr>
      else case parseUintLoop 0 s of
          Inl e \<Rightarrow> Inl \<lparr>Func = ''ParseUint'', Num = s, Err = e\<rparr>
        | Inr n \<Rightarrow> Inr n)"

text \<open>
  \<^verbatim>\<open>strconv.Quote\<close> puts the string between double quotes and escapes what is not
  printable, the double quote and the backslash. \<open>ParseUint\<close> is only ever called here on a
  group captured by \<^verbatim>\<open>(\d+)\<close>, a string of decimal digits, where nothing is escaped; the
  escapes are not modelled.
\<close>

definition Quote :: "string \<Rightarrow> string" where
  "Quote s = DQUOTE # s @ [DQUOTE]"

definition strconvErr_Error :: "strconvErr \<Rightarrow> string" where
  "strconvErr_Error e = (case e of ErrSyntax \<Rightarrow> ''invalid syntax'' | ErrRange \<Rightarrow> ''value out of range'')"

definition NumError_Error :: "NumError \<Rightarrow> string" where
  "NumError_Error e =
     ''strconv.'' @ Func e @ '': parsing '' @ Quote (Num e) @ '': '' @ strconvErr_Error (Err e)"


section \<open>The conversion \<^verbatim>\<open>float64(value)\<close>\<close>

text \<open>
  A \<^verbatim>\<open>float64\<close> is modelled by the real number it denotes. Converting a \<^verbatim>\<open>uint64\<close>
  rounds to the nearest number with a 53-bit significand, ties to the even significand
  (IEEE 754, round to nearest even): with \<open>e\<close> the number of low bits that do not fit, the
  value is rounded to a multiple of \<open>2 ^ e\<close>. The result is at most \<open>2 ^ 64\<close>, far from the
  overflow of the format.
\<close>

type_synonym float64 = real

function droppedBits :: "nat \<Rightarrow> nat" where
  "droppedBits n = (if n < 2 ^ 53 then 0 else Suc (droppedBits (n div 2)))"
  by pat_completeness auto
termination
  by (relation "measure id") auto

definition roundToFloat64 :: "nat \<Rightarrow> nat" where
  "roundToFloat64 n =
     (let e = droppedBits n; q = n div 2 ^ e; r = n mod 2 ^ e
      in if e = 0 then n
         else if 2 ^ e < 2 * r \<or> (2 * r = 2 ^ e \<and> odd q) then (q + 1) * 2 ^ e
         else q * 2 ^ e)"

definition float64OfUint64 :: "64 word \<Rightarrow> float64" where
  "float64OfUint64 v = real (roundToFloat64 (unat v))"


section \<open>Metric families (\<^verbatim>\<open>dto\<close>, the Prometheus client model)\<close>

datatype MetricType = COUNTER | GAUGE | SUMMARY | UNTYPED | HISTOGRAM

record MetricDesc =
  "help" :: string
  metricType :: MetricType

record dtoLabelPair =
  labelName :: string
  labelValue :: string

text \<open>
  \<^verbatim>\<open>dto.Metric\<close>: the fields the program sets. \<open>Gauge\<close> and \<open>Counter\<close> are pointers to a
  struct holding the value, nil (\<open>None\<close>) when the sample is of the other kind.
\<close>

record dtoMetric =
  Label :: "dtoLabelPair list"
  Gauge :: "float64 option"
  Counter :: "float64 option"
  TimestampMs :: int

record dtoMetricFamily =
  Name :: string
  Help :: string
  Type :: MetricType
  Metric :: "dtoMetric list"

definition labelHost :: string where "labelHost = ''host''"
definition labelPort :: string where "labelPort = ''port''"

definition metricHelp :: "string \<rightharpoonup> MetricDesc" where
  "metricHelp = map_of
    [(''nginx_active'', \<lparr>help = ''number of active connections'', metricType = GAUGE\<rparr>),
     (''nginx_handled'', \<lparr>help = ''handled connections'', metricType = COUNTER\<rparr>),
     (''nginx_accepts'', \<lparr>help = ''accepted connections'', metricType = COUNTER\<rparr>),
     (''nginx_requests'', \<lparr>help = ''handled requests'', metricType = COUNTER\<rparr>),
     (''nginx_reading'', \<lparr>help = ''reading requests'', metricType = GAUGE\<rparr>),
     (''nginx_writing'', \<lparr>help = ''writing requests'', metricType = GAUGE\<rparr>),
     (''nginx_waiting'', \<lparr>help = ''keep-alive connections'', metricType = GAUGE\<rparr>)]"

definition addNewCounterMetric ::
  "dtoMetricFamily \<Rightarrow> float64 \<Rightarrow> int \<Rightarrow> string \<Rightarrow> string \<Rightarrow> dtoMetricFamily" where
  "addNewCounterMetric family v timestampMS host port =
     (let counter = \<lparr>Label = [\<lparr>labelName = labelHost, labelValue = host\<rparr>,
                               \<lparr>labelName = labelPort, labelValue = port\<rparr>],
                      Gauge = None,
                      Counter = Some v,
                      TimestampMs = timestampMS\<rparr>
      in family\<lparr>Metric := Metric family @ [counter]\<rparr>)"

definition addNewGaugeMetric ::
  "dtoMetricFamily \<Rightarrow> float64 \<Rightarrow> int \<Rightarrow> string \<Rightarrow> string \<Rightarrow> dtoMetricFamily" where
  "addNewGaugeMetric family v timestampMS host port =
     (let gauge = \<lparr>Label = [\<lparr>labelName = labelHost, labelValue = host\<rparr>,
                             \<lparr>labelName = labelPort, labelValue = port\<rparr>],
                    Gauge = Some v,
                    Counter = None,
                    TimestampMs = timestampMS\<rparr>
      in family\<lparr>Metric := Metric family @ [gauge]\<rparr>)"

text \<open>
  \<^verbatim>\<open>addNewMetric\<close>; its second parameter, \<^verbatim>\<open>metricType\<close> in the source, is the name of
  the metric and is called \<open>name\<close> here (\<open>metricType\<close> is the field of the descriptor).
\<close>

definition addNewMetric ::
  "dtoMetricFamily list \<Rightarrow> string \<Rightarrow> 64 word \<Rightarrow> int \<Rightarrow> string \<Rightarrow> string \<Rightarrow> dtoMetricFamily list" where
  "addNewMetric metrics name v timestampMS hostname port =
     (case metricHelp name of
        None \<Rightarrow> metrics
      | Some metricDesc \<Rightarrow>
          (let family = \<lparr>Name = name, Help = help metricDesc, Type = metricType metricDesc,
                         Metric = []\<rparr>;
               family =
                 (if metricType metricDesc = COUNTER
                  then addNewCounterMetric family (float64OfUint64 v) timestampMS hostname port
                  else if metricType metricDesc = GAUGE
                  then addNewGaugeMetric family (float64OfUint64 v) timestampMS hostname port
                  else family)
           in metrics @ [family]))"


section \<open>\<^verbatim>\<open>extractMetrics\<close>\<close>

text \<open>
  A Go function returning \<^verbatim>\<open>([]*dto.MetricFamily, error)\<close> returns a pair: the slice, nil
  (\<open>None\<close>) or not, and the error, nil (\<open>None\<close>) or not; an error made by \<^verbatim>\<open>fmt.Errorf\<close>
  is its message. \<open>nowMS\<close> is the one reading of the clock, \<^verbatim>\<open>nowFn().UnixMilli()\<close>, taken
  on line 82; \<^verbatim>\<open>nowFn\<close> is not called anywhere else.
\<close>

type_synonym 'a result = "'a option \<times> string option"

definition extractMetrics ::
  "int \<Rightarrow> string \<Rightarrow> string \<Rightarrow> string \<Rightarrow> dtoMetricFamily list result" where
  "extractMetrics nowMS content hostname port =
    (let metrics = [];
         lines = readLines content []
     in
     if length lines \<noteq> 4 then
       (None, Some (''4 output lines are expected, got '' @ showNat (length lines)))
     else
     let line1Match = line1Regex (lines ! 0) in
     if length line1Match \<noteq> 2 then
       (None, Some (''unexpected input for line 1: '' @ lines ! 0))
     else
     (case ParseUint (line1Match ! 1) of
        Inl err \<Rightarrow> (None, Some (''invalid number of connections: '' @ NumError_Error err))
      | Inr active \<Rightarrow>
     (let metrics = addNewMetric metrics ''nginx_active'' active nowMS hostname port;
          line3Match = line3Regex (lines ! 2)
      in
      if length line3Match \<noteq> 4 then
        (None, Some (''unexpected input for line 3: '' @ lines ! 0))
      else
      (case ParseUint (line3Match ! 1) of
         Inl err \<Rightarrow> (None, Some (''invalid accepts value: '' @ NumError_Error err))
       | Inr accepts \<Rightarrow>
      (let metrics = addNewMetric metrics ''nginx_accepts'' accepts nowMS hostname port in
      (case ParseUint (line3Match ! 2) of
         Inl err \<Rightarrow> (None, Some (''invalid handled value: '' @ NumError_Error err))
       | Inr handled \<Rightarrow>
      (let metrics = addNewMetric metrics ''nginx_handled'' handled nowMS hostname port in
      (case ParseUint (line3Match ! 3) of
         Inl err \<Rightarrow> (None, Some (''invalid requests value: '' @ NumError_Error err))
       | Inr requests \<Rightarrow>
      (let metrics = addNewMetric metrics ''nginx_requests'' requests nowMS hostname port;
           line4Match = line4Regex (lines ! 3)
       in
       if length line4Match \<noteq> 4 then
         (None, Some (''unexpected input for line 4: '' @ lines ! 0))
       else
       (case ParseUint (line4Match ! 1) of
          Inl err \<Rightarrow> (None, Some (''invalid reading value: '' @ NumError_Error err))
        | Inr reading \<Rightarrow>
       (let metrics = addNewMetric metrics ''nginx_reading'' reading nowMS hostname port in
       (case ParseUint (line4Match ! 2) of
          Inl err \<Rightarrow> (None, Some (''invalid writing value: '' @ NumError_Error err))
        | Inr writing \<Rightarrow>
       (let metrics = addNewMetric metrics ''nginx_writing'' writing nowMS hostname port in
       (case ParseUint (line4Match ! 3) of
          Inl err \<Rightarrow> (None, Some (''invalid waiting value: '' @ NumError_Error err))
        | Inr waiting \<Rightarrow>
       (let metrics = addNewMetric metrics ''nginx_waiting'' waiting nowMS hostname port
        in (Some metrics, None))))))))))))))))"


section \<open>\<^verbatim>\<open>loadData\<close> and \<^verbatim>\<open>GetMetrics\<close>\<close>

text \<open>
  The network is a parameter: \<open>httpGet url timeout\<close> is what \<^verbatim>\<open>client.Get(url)\<close> of a
  client with that timeout returns, an error (\<open>Inl\<close>, with its message) or a response. Of
  the response the program reads the status code and the body; \<open>Body\<close> is what
  \<^verbatim>\<open>ioutil.ReadAll(resp.Body)\<close> returns, an error or all the bytes of the body.
\<close>

record Response =
  StatusCode :: int
  Body :: "string + string"

definition StatusOK :: int where "StatusOK = 200"

definition loadData ::
  "(string \<Rightarrow> int \<Rightarrow> string + Response) \<Rightarrow> string \<Rightarrow> int \<Rightarrow> string result" where
  "loadData httpGet url timeout =
     (case httpGet url timeout of
        Inl err \<Rightarrow> (None, Some err)
      | Inr resp \<Rightarrow>
          if StatusCode resp \<noteq> StatusOK then
            (None, Some (''invalid nginx status code: '' @ showInt (StatusCode resp)))
          else
            (case Body resp of
               Inl err \<Rightarrow> (None, Some (''error reading body content: '' @ err))
             | Inr body \<Rightarrow> (Some body, None)))"

text \<open>A nil byte slice read as content is the empty content.\<close>

definition GetMetrics ::
  "(string \<Rightarrow> int \<Rightarrow> string + Response) \<Rightarrow> int \<Rightarrow> string \<Rightarrow> string \<Rightarrow> string \<Rightarrow> int
     \<Rightarrow> dtoMetricFamily list result" where
  "GetMetrics httpGet nowMS url hostname port timeout =
     (case loadData httpGet url timeout of
        (data, Some err) \<Rightarrow> (None, Some err)
      | (data, None) \<Rightarrow>
          extractMetrics nowMS (case data of None \<Rightarrow> [] | Some d \<Rightarrow> d) hostname port)"


section \<open>The constants of the tests\<close>

definition outputLine1Ok :: string where "outputLine1Ok = ''Active connections: 33''"
definition outputLine2Ok :: string where "outputLine2Ok = ''server accepts handled requests''"
definition outputLine3Ok :: string where "outputLine3Ok = ''1237 89 91''"
definition outputLine4Ok :: string where "outputLine4Ok = ''Reading: 55 Writing: 767 Waiting: 1234''"

definition allLinesOk :: string where
  "allLinesOk =
     outputLine1Ok @ [LF] @ outputLine2Ok @ [LF] @ outputLine3Ok @ [LF] @ outputLine4Ok @ [LF]"


text \<open>The corrupted lines of the tests \<^verbatim>\<open>invalid line 3\<close> and \<^verbatim>\<open>invalid line 4\<close>.\<close>

definition outputLine3Bad :: string where "outputLine3Bad = ''huh'' @ outputLine3Ok"

definition outputLine4Bad :: string where "outputLine4Bad = ''huh'' @ outputLine4Ok"

definition payloadBadLine3 :: string where
  "payloadBadLine3 = outputLine1Ok @ [LF] @ outputLine2Ok @ [LF] @ outputLine3Bad @ [LF]
     @ outputLine4Ok @ [LF]"

definition payloadBadLine4 :: string where
  "payloadBadLine4 = outputLine1Ok @ [LF] @ outputLine2Ok @ [LF] @ outputLine3Ok @ [LF]
     @ outputLine4Bad @ [LF]"

text \<open>The payload of the test \<^verbatim>\<open>one line missing\<close>.\<close>

definition payloadThreeLines :: string where
  "payloadThreeLines = outputLine1Ok @ [LF] @ outputLine2Ok @ [LF] @ outputLine3Ok @ [LF]"

text \<open>
  The white space of the test \<^verbatim>\<open>happy output with spaces\<close>, in front of each line of
  \<open>allLinesOk\<close> and behind it (the fifth line is the empty one after the last line feed).
\<close>

definition spacesBefore :: "string list" where
  "spacesBefore = [''   '', ''  '', ''  '', ''  '', '''']"

definition spacesAfter :: "string list" where
  "spacesAfter = [''  '', '' '', ''   '', ''  '', '''']"

text \<open>A third line whose second number is \<open>2 ^ 64\<close>.\<close>

definition outputLine3BigHandled :: string where
  "outputLine3BigHandled = ''1237 18446744073709551616 91''"

definition payloadBigHandled :: string where
  "payloadBigHandled = outputLine1Ok @ [LF] @ outputLine2Ok @ [LF] @ outputLine3BigHandled @ [LF]
     @ outputLine4Ok @ [LF]"

text \<open>
  A line of \<open>n\<close> letters, the payload of the tests followed by such a line of 65536 bytes,
  and the payload of the tests with such a line in place of the second line.
\<close>

definition longLine :: "nat \<Rightarrow> string" where
  "longLine n = replicate n (CHR ''x'')"

definition payloadLongLine5 :: string where
  "payloadLongLine5 = allLinesOk @ longLine 65536"

definition payloadLongLine2 :: "nat \<Rightarrow> string" where
  "payloadLongLine2 n = outputLine1Ok @ [LF] @ longLine n @ [LF] @ outputLine3Ok @ [LF] @ outputLine4Ok @ [LF]"


section \<open>Notions of the specification\<close>

text \<open>
  The lines of a payload are the pieces between its line feeds (the last one may be
  empty); \<open>joinLines\<close> puts them together again.
\<close>

fun splitLines :: "string \<Rightarrow> string list" where
  "splitLines [] = [[]]"
| "splitLines (c # cs) =
     (if c = LF then [] # splitLines cs
      else (case splitLines cs of [] \<Rightarrow> [[c]] | l # ls \<Rightarrow> (c # l) # ls))"

fun joinLines :: "string list \<Rightarrow> string" where
  "joinLines [] = []"
| "joinLines [l] = l"
| "joinLines (l # l' # ls) = l @ LF # joinLines (l' # ls)"

text \<open>
  The non-blank lines of a payload: every line trimmed, the empty results discarded.
\<close>

definition nonBlankLines :: "string \<Rightarrow> string list" where
  "nonBlankLines content = filter (\<lambda>l. l \<noteq> []) (map TrimSpace (splitLines content))"

text \<open>A string is white space when trimming leaves nothing of it.\<close>

definition whiteSpace :: "string \<Rightarrow> bool" where
  "whiteSpace w = (TrimSpace w = [])"

text \<open>Adding the white space \<open>as ! i\<close> in front of the \<open>i\<close>-th line and \<open>bs ! i\<close> behind it.\<close>

definition padLines :: "string list \<Rightarrow> string list \<Rightarrow> string list \<Rightarrow> string list" where
  "padLines as ls bs = map (\<lambda>(a, l, b). a @ l @ b) (zip as (zip ls bs))"

text \<open>
  What the classes of the patterns stand for: \<^verbatim>\<open>\d+\<close> is a non-empty string of decimal
  digits, \<^verbatim>\<open>\s+\<close> a non-empty string of the white space of the patterns.
\<close>

definition digitString :: "string \<Rightarrow> bool" where
  "digitString g = (g \<noteq> [] \<and> list_all isDigit g)"

definition spaceString :: "string \<Rightarrow> bool" where
  "spaceString w = (w \<noteq> [] \<and> list_all isPerlSpace w)"

text \<open>The number a string of decimal digits denotes, and whether it fits in 64 bits.\<close>

definition decimalValue :: "string \<Rightarrow> nat" where
  "decimalValue s = foldl (\<lambda>n c. 10 * n + (of_char c - 48)) 0 s"

definition fitsUint64 :: "string \<Rightarrow> bool" where
  "fitsUint64 s = (decimalValue s < 2 ^ 64)"


text \<open>
  The message of the error \<open>ParseUint\<close> returns for a string of digits that is out of range.
\<close>

definition rangeError :: "string \<Rightarrow> string" where
  "rangeError s = ''strconv.ParseUint: parsing '' @ Quote s @ '': value out of range''"

text \<open>
  The metrics after the seven calls of \<open>addNewMetric\<close> in \<open>extractMetrics\<close>, in their order,
  with the values of the seven fields.
\<close>

definition metricNames :: "string list" where
  "metricNames = [''nginx_active'', ''nginx_accepts'', ''nginx_handled'', ''nginx_requests'',
     ''nginx_reading'', ''nginx_writing'', ''nginx_waiting'']"

definition buildMetrics :: "int \<Rightarrow> string \<Rightarrow> string \<Rightarrow> 64 word list \<Rightarrow> dtoMetricFamily list" where
  "buildMetrics nowMS hostname port vs =
     foldl (\<lambda>metrics (name, v). addNewMetric metrics name v nowMS hostname port) []
       (zip metricNames vs)"


section \<open>Basic facts\<close>

declare showNat.simps [simp del]
declare droppedBits.simps [simp del]
declare TrimLeftSpace.simps [simp del]
declare TrimRightSpace.simps [simp del]
declare readLines.simps [simp del]

lemma showNat_digit: "n < 10 \<Longrightarrow> showNat n = [digitChar n]"
  by (simp add: showNat.simps)

lemma showNat_step: "10 \<le> n \<Longrightarrow> showNat n = showNat (n div 10) @ [digitChar (n mod 10)]"
  by (subst showNat.simps) simp


subsection \<open>Trimming\<close>

lemmas ctl_defs = HT_def LF_def VT_def FF_def CR_def SP_def

lemma spaceEncodings_nonempty: "t \<in> set spaceEncodings \<Longrightarrow> t \<noteq> []"
  by (auto simp: spaceEncodings_def)

lemma hasPrefix_append: "hasPrefix s t \<longleftrightarrow> (\<exists>r. s = t @ r)"
proof
  assume "hasPrefix s t"
  then have "s = t @ drop (length t) s"
    by (metis append_take_drop_id hasPrefix_def)
  then show "\<exists>r. s = t @ r" ..
next
  assume "\<exists>r. s = t @ r"
  then show "hasPrefix s t" by (auto simp: hasPrefix_def)
qed

lemma hasSuffix_append: "hasSuffix s t \<longleftrightarrow> (\<exists>r. s = r @ t)"
proof
  assume "hasSuffix s t"
  then have "s = take (length s - length t) s @ t"
    by (metis append_take_drop_id hasSuffix_def)
  then show "\<exists>r. s = r @ t" ..
next
  assume "\<exists>r. s = r @ t"
  then show "hasSuffix s t" by (auto simp: hasSuffix_def)
qed

lemma hasSuffix_rev: "hasSuffix s t = hasPrefix (rev s) (rev t)"
proof -
  have "(\<exists>r. s = r @ t) \<longleftrightarrow> (\<exists>r. rev s = rev t @ r)"
  proof
    assume "\<exists>r. s = r @ t"
    then obtain r where "s = r @ t" ..
    then have "rev s = rev t @ rev r" by simp
    then show "\<exists>r. rev s = rev t @ r" ..
  next
    assume "\<exists>r. rev s = rev t @ r"
    then obtain r where "rev s = rev t @ r" ..
    then have "rev (rev s) = rev (rev t @ r)" by simp
    then have "s = rev r @ t" by simp
    then show "\<exists>r. s = r @ t" ..
  qed
  then show ?thesis by (simp add: hasSuffix_append hasPrefix_append)
qed

lemma leadingSpace_token_all:
  "list_all (\<lambda>t. \<forall>s. leadingSpace (t @ s) = Some t) spaceEncodings"
  by (simp add: spaceEncodings_def leadingSpace_def hasPrefix_def ctl_defs)

lemma leadingSpace_token:
  "t \<in> set spaceEncodings \<Longrightarrow> leadingSpace (t @ s) = Some t"
  using leadingSpace_token_all by (simp add: list_all_iff)

lemma trailingSpace_token_all:
  "list_all (\<lambda>t. \<forall>s. trailingSpace (s @ t) = Some t) spaceEncodings"
  by (simp add: spaceEncodings_def trailingSpace_def hasSuffix_rev hasPrefix_def ctl_defs)

lemma trailingSpace_token:
  "t \<in> set spaceEncodings \<Longrightarrow> trailingSpace (s @ t) = Some t"
  using trailingSpace_token_all by (simp add: list_all_iff)

lemma leadingSpace_SomeD:
  "leadingSpace s = Some t \<Longrightarrow> t \<in> set spaceEncodings \<and> s = t @ drop (length t) s"
  by (auto simp: leadingSpace_def find_Some_iff hasPrefix_def) (metis append_take_drop_id)

lemma trailingSpace_SomeD:
  "trailingSpace s = Some t \<Longrightarrow> t \<in> set spaceEncodings \<and> s = take (length s - length t) s @ t"
  by (auto simp: trailingSpace_def find_Some_iff hasSuffix_def) (metis append_take_drop_id)

lemma leadingSpace_None_iff:
  "leadingSpace s = None \<longleftrightarrow> (\<forall>t\<in>set spaceEncodings. \<not> hasPrefix s t)"
  by (auto simp: leadingSpace_def find_None_iff)

lemma TrimLeftSpace_None: "leadingSpace s = None \<Longrightarrow> TrimLeftSpace s = s"
  by (subst TrimLeftSpace.simps) simp

lemma TrimRightSpace_None: "trailingSpace s = None \<Longrightarrow> TrimRightSpace s = s"
  by (subst TrimRightSpace.simps) simp

lemma TrimLeftSpace_token: "t \<in> set spaceEncodings \<Longrightarrow> TrimLeftSpace (t @ s) = TrimLeftSpace s"
  by (subst TrimLeftSpace.simps) (simp add: leadingSpace_token)

lemma TrimRightSpace_token: "t \<in> set spaceEncodings \<Longrightarrow> TrimRightSpace (s @ t) = TrimRightSpace s"
  by (subst TrimRightSpace.simps) (simp add: trailingSpace_token)

lemma leadingSpace_Nil: "leadingSpace [] = None"
  by (simp add: leadingSpace_def spaceEncodings_def hasPrefix_def)

lemma trailingSpace_Nil: "trailingSpace [] = None"
  by (simp add: trailingSpace_def spaceEncodings_def hasSuffix_def)

lemma TrimLeftSpace_Nil [simp]: "TrimLeftSpace [] = []"
  by (simp add: TrimLeftSpace_None leadingSpace_Nil)

lemma TrimRightSpace_Nil [simp]: "TrimRightSpace [] = []"
  by (simp add: TrimRightSpace_None trailingSpace_Nil)

lemma TrimSpace_Nil [simp]: "TrimSpace [] = []"
  by (simp add: TrimSpace_def)

lemma TrimLeftSpace_concat:
  "set ts \<subseteq> set spaceEncodings \<Longrightarrow> TrimLeftSpace (concat ts @ s) = TrimLeftSpace s"
  by (induction ts) (simp_all add: TrimLeftSpace_token)

lemma TrimRightSpace_concat:
  "set ts \<subseteq> set spaceEncodings \<Longrightarrow> TrimRightSpace (s @ concat ts) = TrimRightSpace s"
proof (induction ts rule: rev_induct)
  case Nil
  then show ?case by simp
next
  case (snoc t ts)
  then have "TrimRightSpace ((s @ concat ts) @ t) = TrimRightSpace (s @ concat ts)"
    by (intro TrimRightSpace_token) simp
  with snoc show ?case by simp
qed

text \<open>Decomposition: what the trimming removes is a sequence of encodings.\<close>

lemma TrimLeftSpace_decomp:
  "\<exists>ts. set ts \<subseteq> set spaceEncodings \<and> s = concat ts @ TrimLeftSpace s"
proof (induction s rule: TrimLeftSpace.induct)
  case (1 s)
  show ?case
  proof (cases "leadingSpace s")
    case None
    then have "s = concat [] @ TrimLeftSpace s" by (simp add: TrimLeftSpace_None)
    then show ?thesis by (metis empty_set empty_subsetI)
  next
    case (Some t)
    then have t: "t \<in> set spaceEncodings" and s: "s = t @ drop (length t) s"
      using leadingSpace_SomeD by blast+
    from "1" [OF Some] obtain ts where ts: "set ts \<subseteq> set spaceEncodings"
      and d: "drop (length t) s = concat ts @ TrimLeftSpace (drop (length t) s)" by blast
    have "TrimLeftSpace s = TrimLeftSpace (drop (length t) s)"
      by (subst TrimLeftSpace.simps) (simp add: Some)
    with s d have "s = concat (t # ts) @ TrimLeftSpace s" by simp
    moreover have "set (t # ts) \<subseteq> set spaceEncodings" using t ts by simp
    ultimately show ?thesis by blast
  qed
qed

lemma TrimRightSpace_decomp:
  "\<exists>ts. set ts \<subseteq> set spaceEncodings \<and> s = TrimRightSpace s @ concat ts"
proof (induction s rule: TrimRightSpace.induct)
  case (1 s)
  show ?case
  proof (cases "trailingSpace s")
    case None
    then have "s = TrimRightSpace s @ concat []" by (simp add: TrimRightSpace_None)
    then show ?thesis by (metis empty_set empty_subsetI)
  next
    case (Some t)
    then have t: "t \<in> set spaceEncodings" and s: "s = take (length s - length t) s @ t"
      using trailingSpace_SomeD by blast+
    from "1" [OF Some] obtain ts where ts: "set ts \<subseteq> set spaceEncodings"
      and d: "take (length s - length t) s = TrimRightSpace (take (length s - length t) s) @ concat ts"
      by blast
    have "TrimRightSpace s = TrimRightSpace (take (length s - length t) s)"
      by (subst TrimRightSpace.simps) (simp add: Some)
    with s d have "s = TrimRightSpace s @ concat (ts @ [t])"
      by (metis append.assoc append_Nil2 concat.simps concat_append)
    moreover have "set (ts @ [t]) \<subseteq> set spaceEncodings" using t ts by simp
    ultimately show ?thesis by blast
  qed
qed

lemma token_tail_not_head_all:
  "list_all (\<lambda>t. list_all (\<lambda>c. list_all (\<lambda>t'. hd t' \<noteq> c) spaceEncodings) (tl t)) spaceEncodings"
  by (simp add: spaceEncodings_def ctl_defs)

lemma token_tail_not_head:
  "t \<in> set spaceEncodings \<Longrightarrow> c \<in> set (tl t) \<Longrightarrow> t' \<in> set spaceEncodings \<Longrightarrow> hd t' \<noteq> c"
  using token_tail_not_head_all by (simp add: list_all_iff)

lemma hd_concat_tokens:
  "set ts \<subseteq> set spaceEncodings \<Longrightarrow> concat ts \<noteq> [] \<Longrightarrow> \<exists>t'\<in>set spaceEncodings. hd (concat ts) = hd t'"
proof (induction ts)
  case Nil
  then show ?case by simp
next
  case (Cons t ts)
  then have "t \<in> set spaceEncodings" by simp
  moreover from this have "t \<noteq> []" by (rule spaceEncodings_nonempty)
  then have "hd (concat (t # ts)) = hd t" by simp
  ultimately show ?case by blast
qed

lemma leadingSpace_None_append:
  assumes none: "leadingSpace x = None" and x: "x \<noteq> []" and ts: "set ts \<subseteq> set spaceEncodings"
  shows "leadingSpace (x @ concat ts) = None"
proof (rule ccontr)
  assume "leadingSpace (x @ concat ts) \<noteq> None"
  then obtain t where "leadingSpace (x @ concat ts) = Some t" by blast
  then have t: "t \<in> set spaceEncodings" and "hasPrefix (x @ concat ts) t"
    by (auto simp: leadingSpace_def find_Some_iff)
  then obtain r where eq: "x @ concat ts = t @ r" by (auto simp: hasPrefix_append)
  then consider u where "x = t @ u" | u where "u \<noteq> []" "t = x @ u" "concat ts = u @ r"
    by (auto simp: append_eq_append_conv2) (metis append_Nil2)
  then show False
  proof cases
    case 1
    then have "hasPrefix x t" by (auto simp: hasPrefix_append)
    with none t show False by (simp add: leadingSpace_None_iff)
  next
    case 2
    then have "concat ts \<noteq> []" by simp
    with ts obtain t' where t': "t' \<in> set spaceEncodings" and "hd (concat ts) = hd t'"
      using hd_concat_tokens by blast
    with 2 have "hd t' = hd u" by simp
    moreover from 2 x have "hd u \<in> set (tl t)" by (cases x) auto
    ultimately show False using token_tail_not_head [OF t _ t'] by metis
  qed
qed

text \<open>White space added in front of a string and behind it is trimmed away again.\<close>

lemma TrimSpace_padded_tokens:
  assumes as: "set as \<subseteq> set spaceEncodings" and bs: "set bs \<subseteq> set spaceEncodings"
  shows "TrimSpace (concat as @ l @ concat bs) = TrimSpace l"
proof -
  have "TrimRightSpace (TrimLeftSpace (l @ concat bs)) = TrimRightSpace (TrimLeftSpace l)"
  proof (induction l rule: TrimLeftSpace.induct)
    case (1 s)
    show ?case
    proof (cases "leadingSpace s")
      case (Some t)
      then have t: "t \<in> set spaceEncodings" and s: "s = t @ drop (length t) s"
        using leadingSpace_SomeD by blast+
      have "TrimLeftSpace (s @ concat bs) = TrimLeftSpace (t @ (drop (length t) s @ concat bs))"
        using s by (metis append.assoc)
      also have "\<dots> = TrimLeftSpace (drop (length t) s @ concat bs)"
        using t by (rule TrimLeftSpace_token)
      finally have a: "TrimLeftSpace (s @ concat bs) = TrimLeftSpace (drop (length t) s @ concat bs)" .
      have b: "TrimLeftSpace s = TrimLeftSpace (drop (length t) s)"
        by (subst TrimLeftSpace.simps) (simp add: Some)
      from "1" [OF Some] a b show ?thesis by simp
    next
      case None
      show ?thesis
      proof (cases "s = []")
        case True
        have "TrimLeftSpace (concat bs @ []) = TrimLeftSpace []"
          using bs by (rule TrimLeftSpace_concat)
        with True show ?thesis by simp
      next
        case False
        have "leadingSpace (s @ concat bs) = None"
          using None False bs by (rule leadingSpace_None_append)
        then have "TrimLeftSpace (s @ concat bs) = s @ concat bs" by (rule TrimLeftSpace_None)
        moreover have "TrimLeftSpace s = s" using None by (rule TrimLeftSpace_None)
        ultimately show ?thesis using bs by (simp add: TrimRightSpace_concat)
      qed
    qed
  qed
  moreover have "TrimLeftSpace (concat as @ (l @ concat bs)) = TrimLeftSpace (l @ concat bs)"
    using as by (rule TrimLeftSpace_concat)
  ultimately show ?thesis by (simp add: TrimSpace_def)
qed

lemma whiteSpace_tokens:
  "whiteSpace w \<longleftrightarrow> (\<exists>ts. set ts \<subseteq> set spaceEncodings \<and> w = concat ts)"
proof
  assume "whiteSpace w"
  then have e: "TrimRightSpace (TrimLeftSpace w) = []" by (simp add: whiteSpace_def TrimSpace_def)
  obtain ts1 where ts1: "set ts1 \<subseteq> set spaceEncodings" "w = concat ts1 @ TrimLeftSpace w"
    using TrimLeftSpace_decomp by blast
  obtain ts2 where ts2: "set ts2 \<subseteq> set spaceEncodings"
      "TrimLeftSpace w = TrimRightSpace (TrimLeftSpace w) @ concat ts2"
    using TrimRightSpace_decomp by blast
  from ts1 ts2 e have "w = concat (ts1 @ ts2)" by simp
  moreover from ts1 ts2 have "set (ts1 @ ts2) \<subseteq> set spaceEncodings" by simp
  ultimately show "\<exists>ts. set ts \<subseteq> set spaceEncodings \<and> w = concat ts" by blast
next
  assume "\<exists>ts. set ts \<subseteq> set spaceEncodings \<and> w = concat ts"
  then obtain ts where ts: "set ts \<subseteq> set spaceEncodings" and w: "w = concat ts" by blast
  have "TrimLeftSpace (concat ts @ []) = TrimLeftSpace []" using ts by (rule TrimLeftSpace_concat)
  with w show "whiteSpace w" by (simp add: whiteSpace_def TrimSpace_def)
qed

lemma TrimSpace_padded:
  assumes "whiteSpace a" and "whiteSpace b"
  shows "TrimSpace (a @ l @ b) = TrimSpace l"
  using assms TrimSpace_padded_tokens by (auto simp: whiteSpace_tokens)

lemma whiteSpace_CR: "whiteSpace [CR]"
proof -
  have "set [[CR]] \<subseteq> set spaceEncodings" by (simp add: spaceEncodings_def)
  moreover have "[CR] = concat [[CR]]" by simp
  ultimately show ?thesis unfolding whiteSpace_tokens by blast
qed

lemma whiteSpace_Nil: "whiteSpace []"
  by (simp add: whiteSpace_def)

lemma TrimSpace_dropCR: "TrimSpace (dropCR l) = TrimSpace l"
proof (cases "l \<noteq> [] \<and> last l = CR")
  case True
  then have l: "l = butlast l @ [CR]" by (metis append_butlast_last_id)
  have "TrimSpace ([] @ butlast l @ [CR]) = TrimSpace (butlast l)"
    using whiteSpace_Nil whiteSpace_CR by (rule TrimSpace_padded)
  with l True show ?thesis by (simp add: dropCR_def)
next
  case False
  then show ?thesis by (auto simp: dropCR_def)
qed


subsection \<open>Scanning lines\<close>

lemma indexByte_line: "c \<notin> set l \<Longrightarrow> indexByte (l @ c # rest) c = Some (length l)"
  by (induction l) auto

lemma indexByte_None: "c \<notin> set l \<Longrightarrow> indexByte l c = None"
  by (induction l) auto

lemma Scan_Nil: "Scan [] = None"
  by (simp add: Scan_def)

lemma Scan_line:
  "LF \<notin> set l \<Longrightarrow> length l < maxScanTokenSize \<Longrightarrow> Scan (l @ LF # rest) = Some (dropCR l, rest)"
  by (simp add: Scan_def indexByte_line)

lemma Scan_last:
  "LF \<notin> set l \<Longrightarrow> l \<noteq> [] \<Longrightarrow> length l < maxScanTokenSize \<Longrightarrow> Scan l = Some (dropCR l, [])"
  by (simp add: Scan_def indexByte_None)

lemma Scan_line_too_long:
  "LF \<notin> set l \<Longrightarrow> maxScanTokenSize \<le> length l \<Longrightarrow> Scan (l @ LF # rest) = None"
  by (simp add: Scan_def indexByte_line)

lemma Scan_last_too_long:
  "LF \<notin> set l \<Longrightarrow> maxScanTokenSize \<le> length l \<Longrightarrow> Scan l = None"
  by (simp add: Scan_def indexByte_None)

lemma readLines_Nil: "readLines [] acc = acc"
  by (subst readLines.simps) (simp add: Scan_Nil)

lemma readLines_line:
  "LF \<notin> set l \<Longrightarrow> length l < maxScanTokenSize \<Longrightarrow>
   readLines (l @ LF # rest) acc =
     readLines rest (if TrimSpace l \<noteq> [] then acc @ [TrimSpace l] else acc)"
  by (subst readLines.simps) (simp add: Scan_line TrimSpace_dropCR)

lemma readLines_last:
  "LF \<notin> set l \<Longrightarrow> length l < maxScanTokenSize \<Longrightarrow>
   readLines l acc = (if TrimSpace l \<noteq> [] then acc @ [TrimSpace l] else acc)"
proof (cases "l = []")
  case True
  then show ?thesis by (simp add: readLines_Nil)
next
  case False
  assume "LF \<notin> set l" "length l < maxScanTokenSize"
  with False have "Scan l = Some (dropCR l, [])" by (simp add: Scan_last)
  then show ?thesis
    by (subst readLines.simps) (simp add: TrimSpace_dropCR readLines_Nil)
qed

lemma readLines_line_too_long:
  "LF \<notin> set l \<Longrightarrow> maxScanTokenSize \<le> length l \<Longrightarrow> readLines (l @ LF # rest) acc = acc"
  by (subst readLines.simps) (simp add: Scan_line_too_long)

lemma readLines_last_too_long:
  "LF \<notin> set l \<Longrightarrow> maxScanTokenSize \<le> length l \<Longrightarrow> readLines l acc = acc"
  by (subst readLines.simps) (simp add: Scan_last_too_long)

text \<open>The lines of a payload.\<close>

lemma splitLines_not_Nil [simp]: "splitLines s \<noteq> []"
  by (induction s) (auto split: list.splits)

lemma splitLines_no_LF: "LF \<notin> set l \<Longrightarrow> splitLines l = [l]"
  by (induction l) auto

lemma splitLines_line: "LF \<notin> set l \<Longrightarrow> splitLines (l @ LF # rest) = l # splitLines rest"
  by (induction l) auto

lemma splitLines_lines_no_LF: "l \<in> set (splitLines s) \<Longrightarrow> LF \<notin> set l"
  by (induction s arbitrary: l) (auto split: if_splits list.splits)

lemma joinLines_Cons: "ls \<noteq> [] \<Longrightarrow> joinLines (l # ls) = l @ LF # joinLines ls"
  by (cases ls) auto

lemma joinLines_splitLines: "joinLines (splitLines s) = s"
proof (induction s)
  case Nil
  then show ?case by simp
next
  case (Cons c s)
  show ?case
  proof (cases "c = LF")
    case True
    with Cons show ?thesis by (simp add: joinLines_Cons)
  next
    case False
    obtain l ls where sp: "splitLines s = l # ls" by (cases "splitLines s") auto
    with Cons have "joinLines (l # ls) = s" by simp
    then have "joinLines ((c # l) # ls) = c # s" by (cases ls) auto
    with False sp show ?thesis by simp
  qed
qed

lemma splitLines_joinLines:
  "ls \<noteq> [] \<Longrightarrow> \<forall>l\<in>set ls. LF \<notin> set l \<Longrightarrow> splitLines (joinLines ls) = ls"
proof (induction ls rule: joinLines.induct)
  case 1
  then show ?case by simp
next
  case (2 l)
  then show ?case by (simp add: splitLines_no_LF)
next
  case (3 l l' ls)
  then show ?case by (simp add: splitLines_line)
qed

text \<open>What the loop of \<open>extractMetrics\<close> collects, when no line is too long.\<close>

lemma readLines_joinLines:
  assumes "\<forall>l\<in>set ls. LF \<notin> set l \<and> length l < maxScanTokenSize"
  shows "readLines (joinLines ls) acc = acc @ filter (\<lambda>l. l \<noteq> []) (map TrimSpace ls)"
  using assms
proof (induction ls arbitrary: acc rule: joinLines.induct)
  case 1
  then show ?case by (simp add: readLines_Nil)
next
  case (2 l)
  then show ?case by (simp add: readLines_last)
next
  case (3 l l' ls)
  then have l: "LF \<notin> set l" "length l < maxScanTokenSize"
    and rest: "\<forall>l\<in>set (l' # ls). LF \<notin> set l \<and> length l < maxScanTokenSize" by simp_all
  have "readLines (joinLines (l # l' # ls)) acc =
      readLines (joinLines (l' # ls)) (if TrimSpace l \<noteq> [] then acc @ [TrimSpace l] else acc)"
    using l by (simp add: readLines_line)
  also have "\<dots> = (if TrimSpace l \<noteq> [] then acc @ [TrimSpace l] else acc)
      @ filter (\<lambda>l. l \<noteq> []) (map TrimSpace (l' # ls))"
    using rest by (rule "3.IH")
  finally show ?case by simp
qed

lemma readLines_nonBlankLines:
  assumes "\<forall>l\<in>set (splitLines content). length l < maxScanTokenSize"
  shows "readLines content [] = nonBlankLines content"
proof -
  have "\<forall>l\<in>set (splitLines content). LF \<notin> set l \<and> length l < maxScanTokenSize"
    using assms splitLines_lines_no_LF by blast
  then have "readLines (joinLines (splitLines content)) [] =
      [] @ filter (\<lambda>l. l \<noteq> []) (map TrimSpace (splitLines content))"
    by (rule readLines_joinLines)
  then show ?thesis by (simp add: joinLines_splitLines nonBlankLines_def)
qed


subsection \<open>Parsing numbers\<close>

lemma decimalValue_foldl:
  "foldl (\<lambda>n c. 10 * n + (of_char c - 48)) a cs = a * 10 ^ length cs + decimalValue cs"
proof (induction cs arbitrary: a)
  case Nil
  then show ?case by (simp add: decimalValue_def)
next
  case (Cons c cs)
  have "foldl (\<lambda>n c. 10 * n + (of_char c - 48)) a (c # cs)
      = (10 * a + (of_char c - 48)) * 10 ^ length cs + decimalValue cs"
    by (simp add: Cons.IH)
  moreover have "decimalValue (c # cs) = (of_char c - 48) * 10 ^ length cs + decimalValue cs"
    by (simp add: decimalValue_def Cons.IH [of "of_char c - 48"])
  ultimately show ?case by (simp add: algebra_simps)
qed

lemma decimalValue_Nil [simp]: "decimalValue [] = 0"
  by (simp add: decimalValue_def)

lemma decimalValue_Cons:
  "decimalValue (c # cs) = (of_char c - 48) * 10 ^ length cs + decimalValue cs"
  using decimalValue_foldl [of "of_char c - 48" cs] by (simp add: decimalValue_def)

lemma unat_of_nat_small: "k < 256 \<Longrightarrow> unat (of_nat k :: 64 word) = k"
  by (simp add: unat_of_nat)

lemma unat_of_char: "unat (of_char c :: 64 word) = of_char c"
  using unat_of_nat_small [of "of_char c"] by (simp add: of_nat_of_char)

lemma unat_digit:
  assumes "isDigit c"
  shows "unat (of_char c - 48 :: 64 word) = of_char c - 48" and "(of_char c :: nat) - 48 < 10"
proof -
  from assms have r: "48 \<le> (of_char c :: nat)" "(of_char c :: nat) \<le> 57"
    by (simp_all add: isDigit_def)
  have "(48 :: 64 word) \<le> of_char c"
    using r by (simp add: word_le_nat_alt unat_of_char)
  then have "unat (of_char c - 48 :: 64 word) = unat (of_char c :: 64 word) - unat (48 :: 64 word)"
    by (rule unat_sub)
  then show "unat (of_char c - 48 :: 64 word) = of_char c - 48"
    by (simp add: unat_of_char)
  from r show "(of_char c :: nat) - 48 < 10" by simp
qed

lemma maxVal_top: "\<not> maxVal < n"
  using unsigned_less [of n, where ?'a = nat] by (simp add: maxVal_def word_less_nat_alt)

lemma parseUintLoop_digits:
  "list_all isDigit cs \<Longrightarrow>
   parseUintLoop n cs =
     (if unat n * 10 ^ length cs + decimalValue cs < 2 ^ 64
      then Inr (of_nat (unat n * 10 ^ length cs + decimalValue cs))
      else Inl ErrRange)"
proof (induction cs arbitrary: n)
  case Nil
  then show ?case using unsigned_less [of n, where ?'a = nat] by simp
next
  case (Cons c cs)
  then have c: "isDigit c" and cs: "list_all isDigit cs" by simp_all
  define d where "d = (of_char c :: nat) - 48"
  have d: "unat (of_char c - 48 :: 64 word) = d" "d < 10"
    using unat_digit [OF c] by (simp_all add: d_def)
  define total where "total = unat n * 10 ^ length (c # cs) + decimalValue (c # cs)"
  have total: "total = (unat n * 10 + d) * 10 ^ length cs + decimalValue cs"
    by (simp add: total_def decimalValue_Cons d_def algebra_simps)
  have ge: "unat n * 10 + d \<le> total"
  proof -
    have "(unat n * 10 + d) * 1 \<le> (unat n * 10 + d) * 10 ^ length cs"
      by (rule mult_le_mono2) simp
    then have "unat n * 10 + d \<le> (unat n * 10 + d) * 10 ^ length cs" by simp
    then show ?thesis unfolding total by (rule trans_le_add1)
  qed
  show ?case
  proof (cases "cutoff \<le> n")
    case True
    then have "1844674407370955162 \<le> unat n"
      by (simp add: cutoff_def word_le_nat_alt)
    with ge have "\<not> total < 2 ^ 64" by simp
    with True c show ?thesis by (simp add: total_def)
  next
    case False
    then have n: "unat n < 1844674407370955162"
      by (simp add: cutoff_def word_le_nat_alt)
    then have "unat n * unat (10 :: 64 word) < 2 ^ LENGTH(64)" by simp
    then have n10: "unat (n * 10) = unat n * 10"
      by (simp add: unat_mult_lem [THEN iffD1])
    show ?thesis
    proof (cases "n * 10 + (of_char c - 48) < n * 10")
      case True
      then have "\<not> n * 10 \<le> n * 10 + (of_char c - 48)" by simp
      then have "\<not> unat (n * 10) + unat (of_char c - 48 :: 64 word) < 2 ^ LENGTH(64)"
        by (simp add: no_olen_add_nat)
      then have "\<not> unat n * 10 + d < 2 ^ 64" by (simp add: n10 d)
      with ge have "\<not> total < 2 ^ 64" by simp
      with True \<open>\<not> cutoff \<le> n\<close> c show ?thesis by (simp add: total_def Let_def)
    next
      case False
      then have "n * 10 \<le> n * 10 + (of_char c - 48)" by simp
      then have lt: "unat (n * 10) + unat (of_char c - 48 :: 64 word) < 2 ^ LENGTH(64)"
        by (simp add: no_olen_add_nat)
      then have n1: "unat (n * 10 + (of_char c - 48)) = unat n * 10 + d"
        by (simp add: unat_add_lem [THEN iffD1] n10 d)
      have "parseUintLoop n (c # cs) = parseUintLoop (n * 10 + (of_char c - 48)) cs"
        using False \<open>\<not> cutoff \<le> n\<close> c by (simp add: Let_def maxVal_top)
      also have "\<dots> = (if total < 2 ^ 64 then Inr (of_nat total) else Inl ErrRange)"
        by (simp add: Cons.IH [OF cs] n1 total)
      finally show ?thesis by (simp add: total_def)
    qed
  qed
qed

lemma ParseUint_digits:
  assumes "s \<noteq> []" and "list_all isDigit s"
  shows "ParseUint s =
     (if decimalValue s < 2 ^ 64 then Inr (of_nat (decimalValue s))
      else Inl \<lparr>Func = ''ParseUint'', Num = s, Err = ErrRange\<rparr>)"
  using assms by (simp add: ParseUint_def parseUintLoop_digits)


subsection \<open>Matching lines\<close>

lemma digits1_SomeD:
  "digits1 s = Some (g, r) \<Longrightarrow> g \<noteq> [] \<and> list_all isDigit g \<and> s = g @ r"
  by (auto simp: digits1_def list_all_iff split: if_splits dest: set_takeWhileD)

lemma line1Pattern_SomeD:
  "line1Pattern s = Some m \<Longrightarrow> \<exists>g1. m = [s, g1] \<and> g1 \<noteq> [] \<and> list_all isDigit g1"
  by (auto simp: line1Pattern_def split: Option.bind_splits if_splits dest: digits1_SomeD)

lemma line3Pattern_SomeD:
  "line3Pattern s = Some m \<Longrightarrow>
     \<exists>g1 g2 g3. m = [s, g1, g2, g3] \<and> g1 \<noteq> [] \<and> list_all isDigit g1
        \<and> g2 \<noteq> [] \<and> list_all isDigit g2 \<and> g3 \<noteq> [] \<and> list_all isDigit g3"
  by (auto simp: line3Pattern_def split: Option.bind_splits if_splits dest!: digits1_SomeD)

lemma line4Pattern_SomeD:
  "line4Pattern s = Some m \<Longrightarrow>
     \<exists>g1 g2 g3. m = [s, g1, g2, g3] \<and> g1 \<noteq> [] \<and> list_all isDigit g1
        \<and> g2 \<noteq> [] \<and> list_all isDigit g2 \<and> g3 \<noteq> [] \<and> list_all isDigit g3"
  by (auto simp: line4Pattern_def split: Option.bind_splits if_splits dest!: digits1_SomeD)

lemma line1Regex_length: "length (line1Regex s) \<noteq> 2 \<longleftrightarrow> line1Pattern s = None"
  by (auto simp: line1Regex_def FindStringSubmatch_def split: option.splits dest: line1Pattern_SomeD)

lemma line3Regex_length: "length (line3Regex s) \<noteq> 4 \<longleftrightarrow> line3Pattern s = None"
  by (auto simp: line3Regex_def FindStringSubmatch_def split: option.splits dest: line3Pattern_SomeD)

lemma line4Regex_length: "length (line4Regex s) \<noteq> 4 \<longleftrightarrow> line4Pattern s = None"
  by (auto simp: line4Regex_def FindStringSubmatch_def split: option.splits dest: line4Pattern_SomeD)


text \<open>
  The matchers accept exactly the texts of the patterns, and the captured groups are
  determined by the text.
\<close>

lemma takeWhile_run:
  "list_all P xs \<Longrightarrow> r = [] \<or> \<not> P (hd r) \<Longrightarrow> takeWhile P (xs @ r) = xs \<and> dropWhile P (xs @ r) = r"
proof (induction xs)
  case Nil
  then show ?case by (cases r) auto
next
  case (Cons x xs)
  then show ?case by simp
qed

lemma digits1_append:
  "digitString g \<Longrightarrow> r = [] \<or> \<not> isDigit (hd r) \<Longrightarrow> digits1 (g @ r) = Some (g, r)"
  using takeWhile_run [of isDigit g r] by (simp add: digits1_def digitString_def)

lemma spaces1_append:
  "spaceString w \<Longrightarrow> r = [] \<or> \<not> isPerlSpace (hd r) \<Longrightarrow> spaces1 (w @ r) = Some r"
  using takeWhile_run [of isPerlSpace w r] by (simp add: spaces1_def spaceString_def)

lemma literal_append: "literal t (t @ r) = Some r"
  by (simp add: literal_def hasPrefix_def)

lemma literal_SomeD: "literal t s = Some r \<Longrightarrow> s = t @ r"
  by (auto simp: literal_def hasPrefix_def split: if_splits) (metis append_take_drop_id)

lemma digits1_Some_iff:
  "digits1 s = Some (g, r) \<longleftrightarrow> s = g @ r \<and> digitString g \<and> (r = [] \<or> \<not> isDigit (hd r))"
proof
  assume a: "digits1 s = Some (g, r)"
  then have g: "g = takeWhile isDigit s" and r: "r = dropWhile isDigit s" and "g \<noteq> []"
    by (auto simp: digits1_def split: if_splits)
  moreover have "list_all isDigit (takeWhile isDigit s)"
    by (auto simp: list_all_iff dest: set_takeWhileD)
  moreover have "dropWhile isDigit s = [] \<or> \<not> isDigit (hd (dropWhile isDigit s))"
    by (metis hd_dropWhile)
  ultimately show "s = g @ r \<and> digitString g \<and> (r = [] \<or> \<not> isDigit (hd r))"
    by (simp add: digitString_def)
next
  assume "s = g @ r \<and> digitString g \<and> (r = [] \<or> \<not> isDigit (hd r))"
  then show "digits1 s = Some (g, r)" by (simp add: digits1_append)
qed

lemma spaces1_Some_iff:
  "spaces1 s = Some r \<longleftrightarrow> (\<exists>w. s = w @ r \<and> spaceString w) \<and> (r = [] \<or> \<not> isPerlSpace (hd r))"
proof
  assume a: "spaces1 s = Some r"
  then have r: "r = dropWhile isPerlSpace s" and "takeWhile isPerlSpace s \<noteq> []"
    by (auto simp: spaces1_def split: if_splits)
  moreover have "list_all isPerlSpace (takeWhile isPerlSpace s)"
    by (auto simp: list_all_iff dest: set_takeWhileD)
  moreover have "dropWhile isPerlSpace s = [] \<or> \<not> isPerlSpace (hd (dropWhile isPerlSpace s))"
    by (metis hd_dropWhile)
  moreover have "s = takeWhile isPerlSpace s @ dropWhile isPerlSpace s" by simp
  ultimately show "(\<exists>w. s = w @ r \<and> spaceString w) \<and> (r = [] \<or> \<not> isPerlSpace (hd r))"
    unfolding spaceString_def by metis
next
  assume "(\<exists>w. s = w @ r \<and> spaceString w) \<and> (r = [] \<or> \<not> isPerlSpace (hd r))"
  then obtain w where "s = w @ r" "spaceString w" "r = [] \<or> \<not> isPerlSpace (hd r)" by blast
  then show "spaces1 s = Some r" by (simp add: spaces1_append)
qed

lemma digit_not_space: "isDigit c \<Longrightarrow> \<not> isPerlSpace c"
  by (auto simp: isDigit_def isPerlSpace_def ctl_defs)

lemma hd_digitString: "digitString g \<Longrightarrow> hd (g @ r) = hd g \<and> isDigit (hd g) \<and> \<not> isPerlSpace (hd g)"
  by (cases g) (auto simp: digitString_def digit_not_space)

lemma hd_spaceString: "spaceString w \<Longrightarrow> hd (w @ r) = hd w \<and> isPerlSpace (hd w) \<and> \<not> isDigit (hd w)"
  by (cases w) (auto simp: spaceString_def dest: digit_not_space)

text \<open>The first pattern.\<close>

lemma line1Pattern_iff:
  "line1Pattern s = Some m \<longleftrightarrow>
     (\<exists>g. s = ''Active connections: '' @ g \<and> digitString g \<and> m = [s, g])"
proof
  assume "line1Pattern s = Some m"
  then obtain r g where "literal ''Active connections: '' s = Some r" "digits1 r = Some (g, [])"
      "m = [s, g]"
    by (auto simp: line1Pattern_def split: Option.bind_splits if_splits)
  then show "\<exists>g. s = ''Active connections: '' @ g \<and> digitString g \<and> m = [s, g]"
    by (auto dest!: literal_SomeD simp: digits1_Some_iff)
next
  assume "\<exists>g. s = ''Active connections: '' @ g \<and> digitString g \<and> m = [s, g]"
  then obtain g where s: "s = ''Active connections: '' @ g" and g: "digitString g" and m: "m = [s, g]"
    by blast
  have "literal ''Active connections: '' s = Some g" unfolding s by (rule literal_append)
  moreover have "digits1 (g @ []) = Some (g, [])" using g by (intro digits1_append) simp_all
  ultimately show "line1Pattern s = Some m" using m by (simp add: line1Pattern_def)
qed

text \<open>The third pattern.\<close>

lemma line3Pattern_iff:
  "line3Pattern s = Some m \<longleftrightarrow>
     (\<exists>g1 w1 g2 w2 g3. s = g1 @ w1 @ g2 @ w2 @ g3 \<and> digitString g1 \<and> spaceString w1
        \<and> digitString g2 \<and> spaceString w2 \<and> digitString g3 \<and> m = [s, g1, g2, g3])"
proof
  assume "line3Pattern s = Some m"
  then obtain g1 r1 r2 g2 r3 r4 g3 where
    "digits1 s = Some (g1, r1)" "spaces1 r1 = Some r2" "digits1 r2 = Some (g2, r3)"
    "spaces1 r3 = Some r4" "digits1 r4 = Some (g3, [])" "m = [s, g1, g2, g3]"
    by (auto simp: line3Pattern_def split: Option.bind_splits if_splits)
  then show "\<exists>g1 w1 g2 w2 g3. s = g1 @ w1 @ g2 @ w2 @ g3 \<and> digitString g1 \<and> spaceString w1
        \<and> digitString g2 \<and> spaceString w2 \<and> digitString g3 \<and> m = [s, g1, g2, g3]"
    by (auto simp: digits1_Some_iff spaces1_Some_iff)
next
  assume "\<exists>g1 w1 g2 w2 g3. s = g1 @ w1 @ g2 @ w2 @ g3 \<and> digitString g1 \<and> spaceString w1
        \<and> digitString g2 \<and> spaceString w2 \<and> digitString g3 \<and> m = [s, g1, g2, g3]"
  then obtain g1 w1 g2 w2 g3 where s: "s = g1 @ w1 @ g2 @ w2 @ g3"
    and c: "digitString g1" "spaceString w1" "digitString g2" "spaceString w2" "digitString g3"
    and m: "m = [s, g1, g2, g3]" by blast
  have 1: "digits1 s = Some (g1, w1 @ g2 @ w2 @ g3)"
    unfolding s using c by (intro digits1_append) (simp_all add: hd_spaceString)
  have 2: "spaces1 (w1 @ g2 @ w2 @ g3) = Some (g2 @ w2 @ g3)"
    using c by (intro spaces1_append) (simp_all add: hd_digitString)
  have 3: "digits1 (g2 @ w2 @ g3) = Some (g2, w2 @ g3)"
    using c by (intro digits1_append) (simp_all add: hd_spaceString)
  have 4: "spaces1 (w2 @ g3) = Some g3"
    using c hd_digitString [of g3 "[]"] by (intro spaces1_append) simp_all
  have 5: "digits1 (g3 @ []) = Some (g3, [])"
    using c by (intro digits1_append) simp_all
  from 1 2 3 4 5 m show "line3Pattern s = Some m" by (simp add: line3Pattern_def)
qed

lemma hd_literals:
  "\<not> isPerlSpace (hd (''Writing:'' @ r))" "\<not> isPerlSpace (hd (''Waiting:'' @ r))"
  by (simp_all add: isPerlSpace_def ctl_defs)

text \<open>The fourth pattern.\<close>

lemma line4Pattern_iff:
  "line4Pattern s = Some m \<longleftrightarrow>
     (\<exists>w1 g1 w2 w3 g2 w4 w5 g3.
        s = ''Reading:'' @ w1 @ g1 @ w2 @ ''Writing:'' @ w3 @ g2 @ w4 @ ''Waiting:'' @ w5 @ g3
        \<and> spaceString w1 \<and> digitString g1 \<and> spaceString w2 \<and> spaceString w3 \<and> digitString g2
        \<and> spaceString w4 \<and> spaceString w5 \<and> digitString g3 \<and> m = [s, g1, g2, g3])"
  (is "?L \<longleftrightarrow> ?R")
proof
  assume ?L
  then obtain r1 r2 g1 r3 r4 r5 r6 g2 r7 r8 r9 r10 g3 where
    a: "literal ''Reading:'' s = Some r1" "spaces1 r1 = Some r2" "digits1 r2 = Some (g1, r3)"
       "spaces1 r3 = Some r4" "literal ''Writing:'' r4 = Some r5" "spaces1 r5 = Some r6"
       "digits1 r6 = Some (g2, r7)" "spaces1 r7 = Some r8" "literal ''Waiting:'' r8 = Some r9"
       "spaces1 r9 = Some r10" "digits1 r10 = Some (g3, [])" "m = [s, g1, g2, g3]"
    by (auto simp: line4Pattern_def split: Option.bind_splits if_splits)
  from a(11) have g3: "r10 = g3" "digitString g3" by (simp_all add: digits1_Some_iff)
  from a(10) obtain w5 where w5: "r9 = w5 @ r10" "spaceString w5" by (auto simp: spaces1_Some_iff)
  from a(9) have r8: "r8 = ''Waiting:'' @ r9" by (rule literal_SomeD)
  from a(8) obtain w4 where w4: "r7 = w4 @ r8" "spaceString w4" by (auto simp: spaces1_Some_iff)
  from a(7) have g2: "r6 = g2 @ r7" "digitString g2" by (simp_all add: digits1_Some_iff)
  from a(6) obtain w3 where w3: "r5 = w3 @ r6" "spaceString w3" by (auto simp: spaces1_Some_iff)
  from a(5) have r4: "r4 = ''Writing:'' @ r5" by (rule literal_SomeD)
  from a(4) obtain w2 where w2: "r3 = w2 @ r4" "spaceString w2" by (auto simp: spaces1_Some_iff)
  from a(3) have g1: "r2 = g1 @ r3" "digitString g1" by (simp_all add: digits1_Some_iff)
  from a(2) obtain w1 where w1: "r1 = w1 @ r2" "spaceString w1" by (auto simp: spaces1_Some_iff)
  from a(1) have r0: "s = ''Reading:'' @ r1" by (rule literal_SomeD)
  have "s = ''Reading:'' @ w1 @ g1 @ w2 @ ''Writing:'' @ w3 @ g2 @ w4 @ ''Waiting:'' @ w5 @ g3"
    by (simp only: r0 w1 g1 w2 r4 w3 g2 w4 r8 w5 g3)
  with w1 g1 w2 w3 g2 w4 w5 g3 a(12) show ?R by blast
next
  assume ?R
  then obtain w1 g1 w2 w3 g2 w4 w5 g3 where
    s: "s = ''Reading:'' @ w1 @ g1 @ w2 @ ''Writing:'' @ w3 @ g2 @ w4 @ ''Waiting:'' @ w5 @ g3"
    and c: "spaceString w1" "digitString g1" "spaceString w2" "spaceString w3" "digitString g2"
      "spaceString w4" "spaceString w5" "digitString g3"
    and m: "m = [s, g1, g2, g3]" by blast
  let ?r10 = "g3" let ?r9 = "w5 @ ?r10" let ?r8 = "''Waiting:'' @ ?r9" let ?r7 = "w4 @ ?r8"
  let ?r6 = "g2 @ ?r7" let ?r5 = "w3 @ ?r6" let ?r4 = "''Writing:'' @ ?r5" let ?r3 = "w2 @ ?r4"
  let ?r2 = "g1 @ ?r3" let ?r1 = "w1 @ ?r2"
  have 1: "literal ''Reading:'' s = Some ?r1" unfolding s by (rule literal_append)
  have 2: "spaces1 ?r1 = Some ?r2"
    using c by (intro spaces1_append) (simp_all add: hd_digitString)
  have 3: "digits1 ?r2 = Some (g1, ?r3)"
    using c by (intro digits1_append) (simp_all add: hd_spaceString)
  have 4: "spaces1 ?r3 = Some ?r4"
    using c hd_literals(1) by (intro spaces1_append) simp_all
  have 5: "literal ''Writing:'' ?r4 = Some ?r5" by (rule literal_append)
  have 6: "spaces1 ?r5 = Some ?r6"
    using c by (intro spaces1_append) (simp_all add: hd_digitString)
  have 7: "digits1 ?r6 = Some (g2, ?r7)"
    using c by (intro digits1_append) (simp_all add: hd_spaceString)
  have 8: "spaces1 ?r7 = Some ?r8"
    using c hd_literals(2) by (intro spaces1_append) simp_all
  have 9: "literal ''Waiting:'' ?r8 = Some ?r9" by (rule literal_append)
  have 10: "spaces1 ?r9 = Some ?r10"
    using c hd_digitString [of g3 "[]"] by (intro spaces1_append) simp_all
  have 11: "digits1 (g3 @ []) = Some (g3, [])"
    using c by (intro digits1_append) simp_all
  show ?L
    unfolding line4Pattern_def
    by (simp only: 1 2 3 4 5 6 7 8 9 10 11 [simplified] m bind.bind_lunit prod.case if_True refl)
qed


subsection \<open>The paths through \<open>extractMetrics\<close>\<close>

lemma NumError_Error_range:
  "NumError_Error \<lparr>Func = ''ParseUint'', Num = s, Err = ErrRange\<rparr> = rangeError s"
  by (simp add: NumError_Error_def rangeError_def strconvErr_Error_def)

lemma addNewMetric_names:
  "addNewMetric ms ''nginx_active'' v t h p = ms @
     [\<lparr>Name = ''nginx_active'', Help = ''number of active connections'', Type = GAUGE,
       Metric = [\<lparr>Label = [\<lparr>labelName = ''host'', labelValue = h\<rparr>,
                            \<lparr>labelName = ''port'', labelValue = p\<rparr>],
                   Gauge = Some (float64OfUint64 v), Counter = None, TimestampMs = t\<rparr>]\<rparr>]"
  "addNewMetric ms ''nginx_accepts'' v t h p = ms @
     [\<lparr>Name = ''nginx_accepts'', Help = ''accepted connections'', Type = COUNTER,
       Metric = [\<lparr>Label = [\<lparr>labelName = ''host'', labelValue = h\<rparr>,
                            \<lparr>labelName = ''port'', labelValue = p\<rparr>],
                   Gauge = None, Counter = Some (float64OfUint64 v), TimestampMs = t\<rparr>]\<rparr>]"
  "addNewMetric ms ''nginx_handled'' v t h p = ms @
     [\<lparr>Name = ''nginx_handled'', Help = ''handled connections'', Type = COUNTER,
       Metric = [\<lparr>Label = [\<lparr>labelName = ''host'', labelValue = h\<rparr>,
                            \<lparr>labelName = ''port'', labelValue = p\<rparr>],
                   Gauge = None, Counter = Some (float64OfUint64 v), TimestampMs = t\<rparr>]\<rparr>]"
  "addNewMetric ms ''nginx_requests'' v t h p = ms @
     [\<lparr>Name = ''nginx_requests'', Help = ''handled requests'', Type = COUNTER,
       Metric = [\<lparr>Label = [\<lparr>labelName = ''host'', labelValue = h\<rparr>,
                            \<lparr>labelName = ''port'', labelValue = p\<rparr>],
                   Gauge = None, Counter = Some (float64OfUint64 v), TimestampMs = t\<rparr>]\<rparr>]"
  "addNewMetric ms ''nginx_reading'' v t h p = ms @
     [\<lparr>Name = ''nginx_reading'', Help = ''reading requests'', Type = GAUGE,
       Metric = [\<lparr>Label = [\<lparr>labelName = ''host'', labelValue = h\<rparr>,
                            \<lparr>labelName = ''port'', labelValue = p\<rparr>],
                   Gauge = Some (float64OfUint64 v), Counter = None, TimestampMs = t\<rparr>]\<rparr>]"
  "addNewMetric ms ''nginx_writing'' v t h p = ms @
     [\<lparr>Name = ''nginx_writing'', Help = ''writing requests'', Type = GAUGE,
       Metric = [\<lparr>Label = [\<lparr>labelName = ''host'', labelValue = h\<rparr>,
                            \<lparr>labelName = ''port'', labelValue = p\<rparr>],
                   Gauge = Some (float64OfUint64 v), Counter = None, TimestampMs = t\<rparr>]\<rparr>]"
  "addNewMetric ms ''nginx_waiting'' v t h p = ms @
     [\<lparr>Name = ''nginx_waiting'', Help = ''keep-alive connections'', Type = GAUGE,
       Metric = [\<lparr>Label = [\<lparr>labelName = ''host'', labelValue = h\<rparr>,
                            \<lparr>labelName = ''port'', labelValue = p\<rparr>],
                   Gauge = Some (float64OfUint64 v), Counter = None, TimestampMs = t\<rparr>]\<rparr>]"
  by (simp_all add: addNewMetric_def metricHelp_def addNewGaugeMetric_def addNewCounterMetric_def
      labelHost_def labelPort_def)

lemma extractMetrics_count:
  "length (readLines content []) \<noteq> 4 \<Longrightarrow>
   extractMetrics now content h p =
     (None, Some (''4 output lines are expected, got '' @ showNat (length (readLines content []))))"
  by (simp add: extractMetrics_def Let_def)

lemma extractMetrics_line1:
  "readLines content [] = [l1, l2, l3, l4] \<Longrightarrow> line1Pattern l1 = None \<Longrightarrow>
   extractMetrics now content h p = (None, Some (''unexpected input for line 1: '' @ l1))"
  by (simp add: extractMetrics_def Let_def line1Regex_def FindStringSubmatch_def)


lemma extractMetrics_active:
  "readLines content [] = [l1, l2, l3, l4] \<Longrightarrow> line1Regex l1 = [w1, a] \<Longrightarrow>
   ParseUint a = Inl e \<Longrightarrow>
   extractMetrics now content h p =
     (None, Some (''invalid number of connections: '' @ NumError_Error e))"
  by (simp add: extractMetrics_def Let_def)

lemma extractMetrics_line3:
  "readLines content [] = [l1, l2, l3, l4] \<Longrightarrow> line1Regex l1 = [w1, a] \<Longrightarrow>
   ParseUint a = Inr v1 \<Longrightarrow> length (line3Regex l3) \<noteq> 4 \<Longrightarrow>
   extractMetrics now content h p = (None, Some (''unexpected input for line 3: '' @ l1))"
  by (simp add: extractMetrics_def Let_def)

lemma extractMetrics_accepts:
  "readLines content [] = [l1, l2, l3, l4] \<Longrightarrow> line1Regex l1 = [w1, a] \<Longrightarrow>
   ParseUint a = Inr v1 \<Longrightarrow> line3Regex l3 = [w3, b, c, d] \<Longrightarrow> ParseUint b = Inl e \<Longrightarrow>
   extractMetrics now content h p = (None, Some (''invalid accepts value: '' @ NumError_Error e))"
  by (simp add: extractMetrics_def Let_def)

lemma extractMetrics_handled:
  "readLines content [] = [l1, l2, l3, l4] \<Longrightarrow> line1Regex l1 = [w1, a] \<Longrightarrow>
   ParseUint a = Inr v1 \<Longrightarrow> line3Regex l3 = [w3, b, c, d] \<Longrightarrow> ParseUint b = Inr v2 \<Longrightarrow>
   ParseUint c = Inl e \<Longrightarrow>
   extractMetrics now content h p = (None, Some (''invalid handled value: '' @ NumError_Error e))"
  by (simp add: extractMetrics_def Let_def)

lemma extractMetrics_requests:
  "readLines content [] = [l1, l2, l3, l4] \<Longrightarrow> line1Regex l1 = [w1, a] \<Longrightarrow>
   ParseUint a = Inr v1 \<Longrightarrow> line3Regex l3 = [w3, b, c, d] \<Longrightarrow> ParseUint b = Inr v2 \<Longrightarrow>
   ParseUint c = Inr v3 \<Longrightarrow> ParseUint d = Inl e \<Longrightarrow>
   extractMetrics now content h p = (None, Some (''invalid requests value: '' @ NumError_Error e))"
  by (simp add: extractMetrics_def Let_def)

lemma extractMetrics_line4:
  "readLines content [] = [l1, l2, l3, l4] \<Longrightarrow> line1Regex l1 = [w1, a] \<Longrightarrow>
   ParseUint a = Inr v1 \<Longrightarrow> line3Regex l3 = [w3, b, c, d] \<Longrightarrow> ParseUint b = Inr v2 \<Longrightarrow>
   ParseUint c = Inr v3 \<Longrightarrow> ParseUint d = Inr v4 \<Longrightarrow> length (line4Regex l4) \<noteq> 4 \<Longrightarrow>
   extractMetrics now content h p = (None, Some (''unexpected input for line 4: '' @ l1))"
  by (simp add: extractMetrics_def Let_def)

lemma extractMetrics_reading:
  "readLines content [] = [l1, l2, l3, l4] \<Longrightarrow> line1Regex l1 = [w1, a] \<Longrightarrow>
   ParseUint a = Inr v1 \<Longrightarrow> line3Regex l3 = [w3, b, c, d] \<Longrightarrow> ParseUint b = Inr v2 \<Longrightarrow>
   ParseUint c = Inr v3 \<Longrightarrow> ParseUint d = Inr v4 \<Longrightarrow> line4Regex l4 = [w4, r, w, g] \<Longrightarrow>
   ParseUint r = Inl e \<Longrightarrow>
   extractMetrics now content h p = (None, Some (''invalid reading value: '' @ NumError_Error e))"
  by (simp add: extractMetrics_def Let_def)

lemma extractMetrics_writing:
  "readLines content [] = [l1, l2, l3, l4] \<Longrightarrow> line1Regex l1 = [w1, a] \<Longrightarrow>
   ParseUint a = Inr v1 \<Longrightarrow> line3Regex l3 = [w3, b, c, d] \<Longrightarrow> ParseUint b = Inr v2 \<Longrightarrow>
   ParseUint c = Inr v3 \<Longrightarrow> ParseUint d = Inr v4 \<Longrightarrow> line4Regex l4 = [w4, r, w, g] \<Longrightarrow>
   ParseUint r = Inr v5 \<Longrightarrow> ParseUint w = Inl e \<Longrightarrow>
   extractMetrics now content h p = (None, Some (''invalid writing value: '' @ NumError_Error e))"
  by (simp add: extractMetrics_def Let_def)

lemma extractMetrics_waiting:
  "readLines content [] = [l1, l2, l3, l4] \<Longrightarrow> line1Regex l1 = [w1, a] \<Longrightarrow>
   ParseUint a = Inr v1 \<Longrightarrow> line3Regex l3 = [w3, b, c, d] \<Longrightarrow> ParseUint b = Inr v2 \<Longrightarrow>
   ParseUint c = Inr v3 \<Longrightarrow> ParseUint d = Inr v4 \<Longrightarrow> line4Regex l4 = [w4, r, w, g] \<Longrightarrow>
   ParseUint r = Inr v5 \<Longrightarrow> ParseUint w = Inr v6 \<Longrightarrow> ParseUint g = Inl e \<Longrightarrow>
   extractMetrics now content h p = (None, Some (''invalid waiting value: '' @ NumError_Error e))"
  by (simp add: extractMetrics_def Let_def)

lemma extractMetrics_success:
  "readLines content [] = [l1, l2, l3, l4] \<Longrightarrow> line1Regex l1 = [w1, a] \<Longrightarrow>
   ParseUint a = Inr v1 \<Longrightarrow> line3Regex l3 = [w3, b, c, d] \<Longrightarrow> ParseUint b = Inr v2 \<Longrightarrow>
   ParseUint c = Inr v3 \<Longrightarrow> ParseUint d = Inr v4 \<Longrightarrow> line4Regex l4 = [w4, r, w, g] \<Longrightarrow>
   ParseUint r = Inr v5 \<Longrightarrow> ParseUint w = Inr v6 \<Longrightarrow> ParseUint g = Inr v7 \<Longrightarrow>
   extractMetrics now content h p =
     (Some (addNewMetric (addNewMetric (addNewMetric (addNewMetric (addNewMetric (addNewMetric
        (addNewMetric [] ''nginx_active'' v1 now h p) ''nginx_accepts'' v2 now h p)
          ''nginx_handled'' v3 now h p) ''nginx_requests'' v4 now h p)
          ''nginx_reading'' v5 now h p) ''nginx_writing'' v6 now h p)
          ''nginx_waiting'' v7 now h p), None)"
  by (simp add: extractMetrics_def Let_def)

lemma extractMetrics_cases:
  "(\<exists>e. extractMetrics now content h p = (None, Some e))
 \<or> (\<exists>v1 v2 v3 v4 v5 v6 v7. extractMetrics now content h p =
      (Some (buildMetrics now h p [v1, v2, v3, v4, v5, v6, v7]), None))"
  unfolding extractMetrics_def Let_def buildMetrics_def metricNames_def
  by (simp split: sum.splits) blast


subsection \<open>The lines of the tests\<close>

lemma leadingSpace_plain:
  assumes "s \<noteq> []" and "\<forall>t\<in>set spaceEncodings. hd s \<notin> set t"
  shows "leadingSpace s = None"
proof (rule ccontr)
  assume "leadingSpace s \<noteq> None"
  then obtain t where "leadingSpace s = Some t" by blast
  then have t: "t \<in> set spaceEncodings" and s: "s = t @ drop (length t) s"
    using leadingSpace_SomeD by blast+
  then have "t \<noteq> []" using spaceEncodings_nonempty by blast
  with s have "hd s = hd t" by (metis hd_append2)
  with \<open>t \<noteq> []\<close> have "hd s \<in> set t" by simp
  with assms t show False by blast
qed

lemma trailingSpace_plain:
  assumes "s \<noteq> []" and "\<forall>t\<in>set spaceEncodings. last s \<notin> set t"
  shows "trailingSpace s = None"
proof (rule ccontr)
  assume "trailingSpace s \<noteq> None"
  then obtain t where "trailingSpace s = Some t" by blast
  then have t: "t \<in> set spaceEncodings" and s: "s = take (length s - length t) s @ t"
    using trailingSpace_SomeD by blast+
  then have "t \<noteq> []" using spaceEncodings_nonempty by blast
  with s have "last s = last t" by (metis last_appendR)
  with \<open>t \<noteq> []\<close> have "last s \<in> set t" by simp
  with assms t show False by blast
qed

lemma TrimSpace_plain:
  assumes "s \<noteq> []" and "\<forall>t\<in>set spaceEncodings. hd s \<notin> set t"
    and "\<forall>t\<in>set spaceEncodings. last s \<notin> set t"
  shows "TrimSpace s = s"
  using assms
  by (simp add: TrimSpace_def TrimLeftSpace_None TrimRightSpace_None leadingSpace_plain
      trailingSpace_plain)

lemma plain_chars:
  "\<forall>t\<in>set spaceEncodings. CHR ''A'' \<notin> set t" "\<forall>t\<in>set spaceEncodings. CHR ''R'' \<notin> set t"
  "\<forall>t\<in>set spaceEncodings. CHR ''s'' \<notin> set t" "\<forall>t\<in>set spaceEncodings. CHR ''h'' \<notin> set t"
  "\<forall>t\<in>set spaceEncodings. CHR ''x'' \<notin> set t"
  "\<forall>t\<in>set spaceEncodings. CHR ''0'' \<notin> set t" "\<forall>t\<in>set spaceEncodings. CHR ''1'' \<notin> set t"
  "\<forall>t\<in>set spaceEncodings. CHR ''2'' \<notin> set t" "\<forall>t\<in>set spaceEncodings. CHR ''3'' \<notin> set t"
  "\<forall>t\<in>set spaceEncodings. CHR ''4'' \<notin> set t" "\<forall>t\<in>set spaceEncodings. CHR ''5'' \<notin> set t"
  "\<forall>t\<in>set spaceEncodings. CHR ''6'' \<notin> set t" "\<forall>t\<in>set spaceEncodings. CHR ''7'' \<notin> set t"
  "\<forall>t\<in>set spaceEncodings. CHR ''8'' \<notin> set t" "\<forall>t\<in>set spaceEncodings. CHR ''9'' \<notin> set t"
  by (simp_all add: spaceEncodings_def ctl_defs)

lemma okLines_facts:
  "LF \<notin> set outputLine1Ok" "LF \<notin> set outputLine2Ok" "LF \<notin> set outputLine3Ok" "LF \<notin> set outputLine4Ok"
  "length outputLine1Ok < maxScanTokenSize" "length outputLine2Ok < maxScanTokenSize"
  "length outputLine3Ok < maxScanTokenSize" "length outputLine4Ok < maxScanTokenSize"
  by (simp_all add: outputLine1Ok_def outputLine2Ok_def outputLine3Ok_def outputLine4Ok_def LF_def
      maxScanTokenSize_def)

lemma okLines_trim:
  "TrimSpace outputLine1Ok = outputLine1Ok" "TrimSpace outputLine2Ok = outputLine2Ok"
  "TrimSpace outputLine3Ok = outputLine3Ok" "TrimSpace outputLine4Ok = outputLine4Ok"
  by (rule TrimSpace_plain; simp add: outputLine1Ok_def outputLine2Ok_def outputLine3Ok_def
      outputLine4Ok_def plain_chars)+

lemma okLines_nonempty:
  "outputLine1Ok \<noteq> []" "outputLine2Ok \<noteq> []" "outputLine3Ok \<noteq> []" "outputLine4Ok \<noteq> []"
  by (simp_all add: outputLine1Ok_def outputLine2Ok_def outputLine3Ok_def outputLine4Ok_def)

lemma readLines_allLinesOk:
  "readLines allLinesOk [] = [outputLine1Ok, outputLine2Ok, outputLine3Ok, outputLine4Ok]"
  by (simp add: allLinesOk_def readLines_line readLines_Nil okLines_facts okLines_trim okLines_nonempty)

lemma okLines_match:
  "line1Regex outputLine1Ok = [outputLine1Ok, ''33'']"
  "line3Regex outputLine3Ok = [outputLine3Ok, ''1237'', ''89'', ''91'']"
  "line4Regex outputLine4Ok = [outputLine4Ok, ''55'', ''767'', ''1234'']"
  by (simp_all add: line1Regex_def line3Regex_def line4Regex_def FindStringSubmatch_def
      line1Pattern_def line3Pattern_def line4Pattern_def literal_def digits1_def spaces1_def
      hasPrefix_def isDigit_def isPerlSpace_def ctl_defs
      outputLine1Ok_def outputLine3Ok_def outputLine4Ok_def)

lemma okLines_parse:
  "ParseUint ''33'' = Inr 33" "ParseUint ''1237'' = Inr 1237" "ParseUint ''89'' = Inr 89"
  "ParseUint ''91'' = Inr 91" "ParseUint ''55'' = Inr 55" "ParseUint ''767'' = Inr 767"
  "ParseUint ''1234'' = Inr 1234"
  by (simp_all add: ParseUint_digits isDigit_def decimalValue_def)

lemma droppedBits_small: "n < 2 ^ 53 \<Longrightarrow> droppedBits n = 0"
  by (simp add: droppedBits.simps)

lemma roundToFloat64_small: "n < 2 ^ 53 \<Longrightarrow> roundToFloat64 n = n"
  by (simp add: roundToFloat64_def droppedBits_small)

lemma okLines_float:
  "float64OfUint64 33 = 33" "float64OfUint64 1237 = 1237" "float64OfUint64 89 = 89"
  "float64OfUint64 91 = 91" "float64OfUint64 55 = 55" "float64OfUint64 767 = 767"
  "float64OfUint64 1234 = 1234"
  by (simp_all add: float64OfUint64_def roundToFloat64_small)

subsection \<open>Further facts for the claims\<close>

lemma badLines_facts:
  "LF \<notin> set outputLine3Bad" "length outputLine3Bad < maxScanTokenSize"
  "LF \<notin> set outputLine4Bad" "length outputLine4Bad < maxScanTokenSize"
  "outputLine3Bad \<noteq> []" "outputLine4Bad \<noteq> []"
  by (simp_all add: outputLine3Bad_def outputLine4Bad_def outputLine3Ok_def outputLine4Ok_def
      LF_def maxScanTokenSize_def)

lemma badLines_trim:
  "TrimSpace outputLine3Bad = outputLine3Bad" "TrimSpace outputLine4Bad = outputLine4Bad"
  by (rule TrimSpace_plain;
      simp add: outputLine3Bad_def outputLine4Bad_def outputLine3Ok_def outputLine4Ok_def plain_chars)+

lemma badLines_match:
  "line3Regex outputLine3Bad = []" "line4Regex outputLine4Bad = []"
  by (simp_all add: line3Regex_def line4Regex_def FindStringSubmatch_def line3Pattern_def
      line4Pattern_def digits1_def literal_def hasPrefix_def isDigit_def
      outputLine3Bad_def outputLine4Bad_def outputLine4Ok_def)

lemma readLines_payloadBadLine3:
  "readLines payloadBadLine3 [] = [outputLine1Ok, outputLine2Ok, outputLine3Bad, outputLine4Ok]"
  unfolding payloadBadLine3_def
  by (simp add: readLines_line readLines_Nil okLines_facts okLines_trim okLines_nonempty badLines_facts badLines_trim)

lemma readLines_payloadBadLine4:
  "readLines payloadBadLine4 [] = [outputLine1Ok, outputLine2Ok, outputLine3Ok, outputLine4Bad]"
  unfolding payloadBadLine4_def
  by (simp add: readLines_line readLines_Nil okLines_facts okLines_trim okLines_nonempty badLines_facts badLines_trim)

lemma buildMetrics_seven:
  "buildMetrics now h p [v1, v2, v3, v4, v5, v6, v7] =
    [\<lparr>Name = ''nginx_active'', Help = ''number of active connections'', Type = GAUGE,
       Metric = [\<lparr>Label = [\<lparr>labelName = ''host'', labelValue = h\<rparr>,
                            \<lparr>labelName = ''port'', labelValue = p\<rparr>],
                   Gauge = Some (float64OfUint64 v1), Counter = None, TimestampMs = now\<rparr>]\<rparr>,
     \<lparr>Name = ''nginx_accepts'', Help = ''accepted connections'', Type = COUNTER,
       Metric = [\<lparr>Label = [\<lparr>labelName = ''host'', labelValue = h\<rparr>,
                            \<lparr>labelName = ''port'', labelValue = p\<rparr>],
                   Gauge = None, Counter = Some (float64OfUint64 v2), TimestampMs = now\<rparr>]\<rparr>,
     \<lparr>Name = ''nginx_handled'', Help = ''handled connections'', Type = COUNTER,
       Metric = [\<lparr>Label = [\<lparr>labelName = ''host'', labelValue = h\<rparr>,
                            \<lparr>labelName = ''port'', labelValue = p\<rparr>],
                   Gauge = None, Counter = Some (float64OfUint64 v3), TimestampMs = now\<rparr>]\<rparr>,
     \<lparr>Name = ''nginx_requests'', Help = ''handled requests'', Type = COUNTER,
       Metric = [\<lparr>Label = [\<lparr>labelName = ''host'', labelValue = h\<rparr>,
                            \<lparr>labelName = ''port'', labelValue = p\<rparr>],
                   Gauge = None, Counter = Some (float64OfUint64 v4), TimestampMs = now\<rparr>]\<rparr>,
     \<lparr>Name = ''nginx_reading'', Help = ''reading requests'', Type = GAUGE,
       Metric = [\<lparr>Label = [\<lparr>labelName = ''host'', labelValue = h\<rparr>,
                            \<lparr>labelName = ''port'', labelValue = p\<rparr>],
                   Gauge = Some (float64OfUint64 v5), Counter = None, TimestampMs = now\<rparr>]\<rparr>,
     \<lparr>Name = ''nginx_writing'', Help = ''writing requests'', Type = GAUGE,
       Metric = [\<lparr>Label = [\<lparr>labelName = ''host'', labelValue = h\<rparr>,
                            \<lparr>labelName = ''port'', labelValue = p\<rparr>],
                   Gauge = Some (float64OfUint64 v6), Counter = None, TimestampMs = now\<rparr>]\<rparr>,
     \<lparr>Name = ''nginx_waiting'', Help = ''keep-alive connections'', Type = GAUGE,
       Metric = [\<lparr>Label = [\<lparr>labelName = ''host'', labelValue = h\<rparr>,
                            \<lparr>labelName = ''port'', labelValue = p\<rparr>],
                   Gauge = Some (float64OfUint64 v7), Counter = None, TimestampMs = now\<rparr>]\<rparr>]"
  by (simp add: buildMetrics_def metricNames_def addNewMetric_names)

lemma length_buildMetrics_seven: "length (buildMetrics now h p [v1, v2, v3, v4, v5, v6, v7]) = 7"
  by (simp add: buildMetrics_seven)

lemma extractMetrics_success_build:
  "readLines content [] = [l1, l2, l3, l4] \<Longrightarrow> line1Regex l1 = [w1, a] \<Longrightarrow>
   ParseUint a = Inr v1 \<Longrightarrow> line3Regex l3 = [w3, b, c, d] \<Longrightarrow> ParseUint b = Inr v2 \<Longrightarrow>
   ParseUint c = Inr v3 \<Longrightarrow> ParseUint d = Inr v4 \<Longrightarrow> line4Regex l4 = [w4, r, w, g] \<Longrightarrow>
   ParseUint r = Inr v5 \<Longrightarrow> ParseUint w = Inr v6 \<Longrightarrow> ParseUint g = Inr v7 \<Longrightarrow>
   extractMetrics now content h p = (Some (buildMetrics now h p [v1, v2, v3, v4, v5, v6, v7]), None)"
  by (simp add: extractMetrics_success buildMetrics_def metricNames_def)

lemma FindStringSubmatch_capture1:
  "line1Regex l = [w, a] \<Longrightarrow> a \<noteq> [] \<and> list_all isDigit a"
  by (auto simp: line1Regex_def FindStringSubmatch_def split: option.splits dest: line1Pattern_SomeD)

lemma FindStringSubmatch_capture3:
  "line3Regex l = [w, a, b, c] \<Longrightarrow>
     a \<noteq> [] \<and> list_all isDigit a \<and> b \<noteq> [] \<and> list_all isDigit b \<and> c \<noteq> [] \<and> list_all isDigit c"
  by (auto simp: line3Regex_def FindStringSubmatch_def split: option.splits dest: line3Pattern_SomeD)

lemma FindStringSubmatch_capture4:
  "line4Regex l = [w, a, b, c] \<Longrightarrow>
     a \<noteq> [] \<and> list_all isDigit a \<and> b \<noteq> [] \<and> list_all isDigit b \<and> c \<noteq> [] \<and> list_all isDigit c"
  by (auto simp: line4Regex_def FindStringSubmatch_def split: option.splits dest: line4Pattern_SomeD)

lemma ParseUint_fitsUint64:
  "s \<noteq> [] \<Longrightarrow> list_all isDigit s \<Longrightarrow> fitsUint64 s \<Longrightarrow> ParseUint s = Inr (of_nat (decimalValue s))"
  by (simp add: ParseUint_digits fitsUint64_def)

lemma ParseUint_not_fitsUint64:
  "s \<noteq> [] \<Longrightarrow> list_all isDigit s \<Longrightarrow> \<not> fitsUint64 s \<Longrightarrow>
   ParseUint s = Inl \<lparr>Func = ''ParseUint'', Num = s, Err = ErrRange\<rparr>"
  by (simp add: ParseUint_digits fitsUint64_def)

lemma droppedBits_one: "2 ^ 53 \<le> n \<Longrightarrow> n < 2 ^ 54 \<Longrightarrow> droppedBits n = 1"
  by (subst droppedBits.simps) (simp add: droppedBits_small)

lemma roundToFloat64_exact: "n \<le> 2 ^ 53 \<Longrightarrow> roundToFloat64 n = n"
proof (cases "n < 2 ^ 53")
  case True
  then show ?thesis by (rule roundToFloat64_small)
next
  case False
  assume "n \<le> 2 ^ 53"
  with False have n: "n = 2 ^ 53" by simp
  have "droppedBits (2 ^ 53) = 1" by (rule droppedBits_one) simp_all
  with n show ?thesis by (simp add: roundToFloat64_def)
qed

lemma roundToFloat64_tie: "roundToFloat64 (2 ^ 53 + 1) = 2 ^ 53"
proof -
  have "droppedBits (2 ^ 53 + 1) = 1" by (rule droppedBits_one) simp_all
  then show ?thesis by (simp add: roundToFloat64_def)
qed

lemma float64OfUint64_exact: "unat v \<le> 2 ^ 53 \<Longrightarrow> float64OfUint64 v = real (unat v)"
  by (simp add: float64OfUint64_def roundToFloat64_exact)

lemma float64OfUint64_tie:
  "float64OfUint64 9007199254740993 = 9007199254740992"
  "float64OfUint64 9007199254740992 = 9007199254740992"
proof -
  have "unat (9007199254740993 :: 64 word) = 2 ^ 53 + 1" by simp
  then have "roundToFloat64 (unat (9007199254740993 :: 64 word)) = 2 ^ 53"
    by (simp only: roundToFloat64_tie)
  then show "float64OfUint64 9007199254740993 = 9007199254740992"
    by (simp add: float64OfUint64_def)
  show "float64OfUint64 9007199254740992 = 9007199254740992"
    by (simp add: float64OfUint64_exact)
qed

lemma addNewMetric_value:
  "addNewMetric ms name v t h p = addNewMetric ms name v' t h p"
  if "float64OfUint64 v = float64OfUint64 v'"
  using that by (auto simp: addNewMetric_def Let_def split: option.splits)

lemma of_char_digitChar: "d < 10 \<Longrightarrow> of_char (digitChar d) = 48 + d"
proof -
  assume "d < 10"
  then have "d \<in> {0, 1, 2, 3, 4, 5, 6, 7, 8, 9}" by auto
  then show ?thesis by (auto simp: digitChar_def)
qed

lemma decimalValue_snoc: "decimalValue (s @ [c]) = 10 * decimalValue s + (of_char c - 48)"
  by (simp add: decimalValue_def)

lemma decimalValue_showNat: "decimalValue (showNat n) = n"
proof (induction n rule: showNat.induct)
  case (1 n)
  show ?case
  proof (cases "n < 10")
    case True
    then show ?thesis
      by (simp add: showNat_digit decimalValue_Cons of_char_digitChar)
  next
    case False
    then have "decimalValue (showNat (n div 10)) = n div 10" by (rule "1.IH")
    with False show ?thesis
      by (simp add: showNat_step decimalValue_snoc of_char_digitChar)
  qed
qed

lemma longLine_facts:
  "LF \<notin> set (longLine n)" "length (longLine n) = n" "0 < n \<Longrightarrow> TrimSpace (longLine n) = longLine n"
  "0 < n \<Longrightarrow> longLine n \<noteq> []"
proof -
  show "LF \<notin> set (longLine n)" by (simp add: longLine_def LF_def)
  show "length (longLine n) = n" by (simp add: longLine_def)
  show "TrimSpace (longLine n) = longLine n" if "0 < n"
    using that by (intro TrimSpace_plain) (simp_all add: longLine_def plain_chars)
  show "longLine n \<noteq> []" if "0 < n" using that by (simp add: longLine_def)
qed

lemma extractMetrics_allLinesOk:
  "extractMetrics now allLinesOk h p = (Some (buildMetrics now h p [33, 1237, 89, 91, 55, 767, 1234]), None)"
  by (rule extractMetrics_success_build [OF readLines_allLinesOk okLines_match(1) okLines_parse(1)
        okLines_match(2) okLines_parse(2,3,4) okLines_match(3) okLines_parse(5,6,7)])

lemma extractMetrics_cong_lines:
  "readLines content [] = readLines content' [] \<Longrightarrow>
   extractMetrics now content h p = extractMetrics now content' h p"
  by (simp add: extractMetrics_def)

lemma padLines_Cons:
  "padLines (a # as) (l # ls) (b # bs) = (a @ l @ b) # padLines as ls bs"
  by (simp add: padLines_def)

lemma padLines_Nil: "padLines [] [] [] = []"
  by (simp add: padLines_def)

lemma extractMetrics_valid:
  assumes lines: "readLines content [] = [l1, l2, l3, l4]"
    and m1: "line1Regex l1 = [w1, a]"
    and m3: "line3Regex l3 = [w3, b, c, d]"
    and m4: "line4Regex l4 = [w4, r, w, g]"
    and fits: "list_all fitsUint64 [a, b, c, d, r, w, g]"
  shows "extractMetrics now content h p =
        (Some (buildMetrics now h p (map (\<lambda>s. of_nat (decimalValue s)) [a, b, c, d, r, w, g])), None)"
  using FindStringSubmatch_capture1 [OF m1] FindStringSubmatch_capture3 [OF m3]
    FindStringSubmatch_capture4 [OF m4] fits
  by (auto intro!: extractMetrics_success_build [OF lines m1 _ m3 _ _ _ m4] ParseUint_fitsUint64)

lemma whiteSpace_spaces:
  "whiteSpace '' ''" "whiteSpace ''  ''" "whiteSpace ''   ''" "whiteSpace ''''"
proof -
  have sp: "set (replicate n [SP]) \<subseteq> set spaceEncodings" for n
    by (auto simp: spaceEncodings_def)
  have "whiteSpace (concat (replicate n [SP]))" for n
    unfolding whiteSpace_tokens using sp by blast
  from this [of 1] this [of 2] this [of 3] this [of 0]
  show "whiteSpace '' ''" "whiteSpace ''  ''" "whiteSpace ''   ''" "whiteSpace ''''"
    by (simp_all add: SP_def numeral_2_eq_2 numeral_3_eq_3)
qed

lemma splitLines_allLinesOk:
  "splitLines allLinesOk = [outputLine1Ok, outputLine2Ok, outputLine3Ok, outputLine4Ok, []]"
  by (simp add: allLinesOk_def splitLines_line okLines_facts)

lemma readLines_payloadLongLine2_short:
  assumes "0 < n" "n < maxScanTokenSize"
  shows "readLines (payloadLongLine2 n) [] = [outputLine1Ok, longLine n, outputLine3Ok, outputLine4Ok]"
  using assms
  by (simp add: payloadLongLine2_def readLines_line readLines_Nil okLines_facts okLines_trim
      okLines_nonempty longLine_facts)

lemma readLines_line2_too_long:
  assumes "LF \<notin> set l" "maxScanTokenSize \<le> length l"
  shows "readLines (outputLine1Ok @ [LF] @ l @ [LF] @ rest) [] = [outputLine1Ok]"
  using assms
  by (simp add: readLines_line readLines_line_too_long okLines_facts okLines_trim okLines_nonempty)

lemma splitLines_payloadLongLine2:
  "splitLines (payloadLongLine2 n) = [outputLine1Ok, longLine n, outputLine3Ok, outputLine4Ok, []]"
  by (simp add: payloadLongLine2_def splitLines_line okLines_facts longLine_facts)

lemma showNat_1: "showNat (Suc 0) = ''1''"
  by (simp add: showNat_digit digitChar_def)

lemma bigHandled_facts:
  "LF \<notin> set outputLine3BigHandled" "length outputLine3BigHandled < maxScanTokenSize"
  "outputLine3BigHandled \<noteq> []"
  "line3Regex outputLine3BigHandled = [outputLine3BigHandled, ''1237'', ''18446744073709551616'', ''91'']"
  "TrimSpace outputLine3BigHandled = outputLine3BigHandled"
proof -
  show "LF \<notin> set outputLine3BigHandled" "length outputLine3BigHandled < maxScanTokenSize"
    "outputLine3BigHandled \<noteq> []"
    by (simp_all add: outputLine3BigHandled_def LF_def maxScanTokenSize_def)
  show "line3Regex outputLine3BigHandled =
      [outputLine3BigHandled, ''1237'', ''18446744073709551616'', ''91'']"
    by (simp add: line3Regex_def FindStringSubmatch_def line3Pattern_def digits1_def spaces1_def
        isDigit_def isPerlSpace_def ctl_defs outputLine3BigHandled_def)
  show "TrimSpace outputLine3BigHandled = outputLine3BigHandled"
    by (rule TrimSpace_plain) (simp_all add: outputLine3BigHandled_def plain_chars)
qed

lemma readLines_payloadBigHandled:
  "readLines payloadBigHandled [] =
     [outputLine1Ok, outputLine2Ok, outputLine3BigHandled, outputLine4Ok]"
  unfolding payloadBigHandled_def
  by (simp add: readLines_line readLines_Nil okLines_facts okLines_trim okLines_nonempty
      bigHandled_facts)

lemma splitLines_append_LF: "splitLines (x @ LF # y) = splitLines x @ splitLines y"
proof (induction x)
  case Nil
  then show ?case by simp
next
  case (Cons c x)
  obtain l ls where sp: "splitLines x = l # ls" by (cases "splitLines x") auto
  with Cons show ?case by (simp split: list.splits)
qed

lemma splitLines_joinLines_concat:
  "xs \<noteq> [] \<Longrightarrow> splitLines (joinLines xs) = concat (map splitLines xs)"
proof (induction xs rule: joinLines.induct)
  case 1
  then show ?case by simp
next
  case (2 l)
  then show ?case by simp
next
  case (3 l l' ls)
  then show ?case by (simp add: splitLines_append_LF)
qed

lemma splitLines_prefix:
  "LF \<notin> set t \<Longrightarrow> splitLines (t @ r) = (t @ hd (splitLines r)) # tl (splitLines r)"
proof (induction t)
  case Nil
  then show ?case by simp
next
  case (Cons c t)
  then have "c \<noteq> LF" and "LF \<notin> set t" by auto
  with Cons.IH show ?case by simp
qed

lemma token_LF_all: "list_all (\<lambda>t. t = [LF] \<or> LF \<notin> set t) spaceEncodings"
  by (simp add: spaceEncodings_def ctl_defs)

lemma token_LF: "t \<in> set spaceEncodings \<Longrightarrow> t = [LF] \<or> LF \<notin> set t"
  using token_LF_all by (simp add: list_all_iff)

lemma whiteSpace_token: "t \<in> set spaceEncodings \<Longrightarrow> whiteSpace t"
proof -
  assume "t \<in> set spaceEncodings"
  then have "set [t] \<subseteq> set spaceEncodings" "t = concat [t]" by simp_all
  then show ?thesis unfolding whiteSpace_tokens by blast
qed

lemma whiteSpace_append: "whiteSpace a \<Longrightarrow> whiteSpace b \<Longrightarrow> whiteSpace (a @ b)"
proof -
  assume "whiteSpace a" "whiteSpace b"
  then obtain ts1 ts2 where "set ts1 \<subseteq> set spaceEncodings" "a = concat ts1"
    "set ts2 \<subseteq> set spaceEncodings" "b = concat ts2"
    unfolding whiteSpace_tokens by blast
  then have "set (ts1 @ ts2) \<subseteq> set spaceEncodings" "a @ b = concat (ts1 @ ts2)" by simp_all
  then show ?thesis unfolding whiteSpace_tokens by blast
qed

lemma TrimSpace_whiteSpace_prefix: "whiteSpace a \<Longrightarrow> TrimSpace (a @ l) = TrimSpace l"
  using TrimSpace_padded [of a "[]" l] by (simp add: whiteSpace_Nil)

lemma TrimSpace_whiteSpace_suffix: "whiteSpace b \<Longrightarrow> TrimSpace (l @ b) = TrimSpace l"
  using TrimSpace_padded [of "[]" b l] by (simp add: whiteSpace_Nil)

text \<open>White space in front of a text adds only blank lines.\<close>

lemma nonBlank_tokens_prefix:
  "set ts \<subseteq> set spaceEncodings \<Longrightarrow>
   filter (\<lambda>l. l \<noteq> []) (map TrimSpace (splitLines (concat ts @ r))) =
   filter (\<lambda>l. l \<noteq> []) (map TrimSpace (splitLines r))"
proof (induction ts)
  case Nil
  then show ?case by simp
next
  case (Cons t ts)
  then have t: "t \<in> set spaceEncodings" and ts: "set ts \<subseteq> set spaceEncodings" by simp_all
  let ?r = "concat ts @ r"
  obtain x xs where sp: "splitLines ?r = x # xs" by (cases "splitLines ?r") auto
  show ?case
  proof (cases "t = [LF]")
    case True
    then show ?thesis using Cons.IH [OF ts] by simp
  next
    case False
    with t have "LF \<notin> set t" using token_LF by blast
    then have "splitLines (t @ ?r) = (t @ x) # xs" by (simp add: splitLines_prefix sp)
    moreover have "TrimSpace (t @ x) = TrimSpace x"
      using t by (intro TrimSpace_whiteSpace_prefix whiteSpace_token)
    ultimately show ?thesis using Cons.IH [OF ts] sp by simp
  qed
qed

lemma nonBlank_whiteSpace_prefix:
  "whiteSpace a \<Longrightarrow>
   filter (\<lambda>l. l \<noteq> []) (map TrimSpace (splitLines (a @ r))) =
   filter (\<lambda>l. l \<noteq> []) (map TrimSpace (splitLines r))"
  using nonBlank_tokens_prefix by (auto simp: whiteSpace_tokens)

text \<open>The lines of white space are white space.\<close>

lemma splitLines_tokens:
  "set ts \<subseteq> set spaceEncodings \<Longrightarrow> \<forall>x\<in>set (splitLines (concat ts)). whiteSpace x"
proof (induction ts)
  case Nil
  then show ?case by (simp add: whiteSpace_Nil)
next
  case (Cons t ts)
  then have t: "t \<in> set spaceEncodings" and ts: "set ts \<subseteq> set spaceEncodings" by simp_all
  obtain x xs where sp: "splitLines (concat ts) = x # xs" by (cases "splitLines (concat ts)") auto
  with Cons.IH [OF ts] have x: "whiteSpace x" and xs: "\<forall>y\<in>set xs. whiteSpace y" by simp_all
  show ?case
  proof (cases "t = [LF]")
    case True
    then show ?thesis using Cons.IH [OF ts] by (simp add: whiteSpace_Nil)
  next
    case False
    with t have "LF \<notin> set t" using token_LF by blast
    then have "splitLines (t @ concat ts) = (t @ x) # xs" by (simp add: splitLines_prefix sp)
    moreover have "whiteSpace (t @ x)"
      using whiteSpace_token [OF t] x by (rule whiteSpace_append)
    ultimately show ?thesis using xs by simp
  qed
qed

lemma splitLines_whiteSpace: "whiteSpace b \<Longrightarrow> \<forall>x\<in>set (splitLines b). whiteSpace x"
  using splitLines_tokens by (auto simp: whiteSpace_tokens)

text \<open>A line with white space around it, line feeds included, is one non-blank line at most.\<close>

lemma nonBlank_padded_line:
  assumes a: "whiteSpace a" and b: "whiteSpace b" and l: "LF \<notin> set l"
  shows "filter (\<lambda>l. l \<noteq> []) (map TrimSpace (splitLines (a @ l @ b))) =
     filter (\<lambda>l. l \<noteq> []) (map TrimSpace [l])"
proof -
  obtain x xs where sp: "splitLines b = x # xs" by (cases "splitLines b") auto
  with splitLines_whiteSpace [OF b] have x: "whiteSpace x" and xs: "\<forall>y\<in>set xs. whiteSpace y"
    by simp_all
  have "splitLines (l @ b) = (l @ x) # xs" using l by (simp add: splitLines_prefix sp)
  moreover have "TrimSpace (l @ x) = TrimSpace l" using x by (rule TrimSpace_whiteSpace_suffix)
  moreover have "filter (\<lambda>l. l \<noteq> []) (map TrimSpace xs) = []"
    using xs by (auto simp: filter_empty_conv whiteSpace_def)
  ultimately have "filter (\<lambda>l. l \<noteq> []) (map TrimSpace (splitLines (l @ b))) =
     filter (\<lambda>l. l \<noteq> []) (map TrimSpace [l])" by simp
  with nonBlank_whiteSpace_prefix [OF a, of "l @ b"] show ?thesis by simp
qed

lemma splitLines_contains:
  "LF \<notin> set l \<Longrightarrow> \<exists>x\<in>set (splitLines (a @ l @ b)). length l \<le> length x"
proof (induction a)
  case Nil
  then show ?case by (simp add: splitLines_prefix)
next
  case (Cons c a)
  then obtain x where x: "x \<in> set (splitLines (a @ l @ b))" "length l \<le> length x" by blast
  obtain y ys where sp: "splitLines (a @ l @ b) = y # ys" by (cases "splitLines (a @ l @ b)") auto
  show ?case
  proof (cases "c = LF")
    case True
    with x show ?thesis by auto
  next
    case False
    then have s: "splitLines ((c # a) @ l @ b) = (c # y) # ys" by (simp add: sp)
    from x sp have "x = y \<or> x \<in> set ys" by simp
    then show ?thesis
    proof
      assume "x = y"
      with x have "length l \<le> length (c # y)" by simp
      with s show ?thesis by auto
    next
      assume "x \<in> set ys"
      with x s show ?thesis by auto
    qed
  qed
qed

lemma padLines_nonBlank:
  assumes "length as = length ls" and "length ls = length bs"
    and "\<forall>a\<in>set as. whiteSpace a" and "\<forall>b\<in>set bs. whiteSpace b"
    and "\<forall>l\<in>set ls. LF \<notin> set l"
  shows "filter (\<lambda>l. l \<noteq> []) (map TrimSpace (concat (map splitLines (padLines as ls bs)))) =
      filter (\<lambda>l. l \<noteq> []) (map TrimSpace ls)
    \<and> (\<forall>l\<in>set ls. \<exists>x\<in>set (concat (map splitLines (padLines as ls bs))). length l \<le> length x)
    \<and> length (padLines as ls bs) = length ls"
  using assms
proof (induction as ls bs rule: list_induct3)
  case Nil
  then show ?case by (simp add: padLines_Nil)
next
  case (Cons a as l ls b bs)
  then have ih: "filter (\<lambda>l. l \<noteq> []) (map TrimSpace (concat (map splitLines (padLines as ls bs)))) =
      filter (\<lambda>l. l \<noteq> []) (map TrimSpace ls)
    \<and> (\<forall>l\<in>set ls. \<exists>x\<in>set (concat (map splitLines (padLines as ls bs))). length l \<le> length x)
    \<and> length (padLines as ls bs) = length ls"
    by simp
  from Cons.prems have ws: "whiteSpace a" "whiteSpace b" and lf: "LF \<notin> set l" by simp_all
  have 1: "filter (\<lambda>l. l \<noteq> []) (map TrimSpace (splitLines (a @ l @ b))) =
     filter (\<lambda>l. l \<noteq> []) (map TrimSpace [l])"
    using ws lf by (rule nonBlank_padded_line)
  have 2: "\<exists>x\<in>set (splitLines (a @ l @ b)). length l \<le> length x"
    using lf by (rule splitLines_contains)
  from ih 1 2 show ?case by (simp add: padLines_Cons) blast
qed


lemma GetMetrics_fetch_error:
  "loadData httpGet url timeout = (data, Some err) \<Longrightarrow>
   GetMetrics httpGet now url h p timeout = (None, Some err)"
  by (simp add: GetMetrics_def)

lemma GetMetrics_fetch_ok:
  "loadData httpGet url timeout = (Some body, None) \<Longrightarrow>
   GetMetrics httpGet now url h p timeout = extractMetrics now body h p"
  by (simp add: GetMetrics_def)


section \<open>The claims\<close>

text \<open>
  C1. On the payload of the tests, \<open>allLinesOk\<close>, with host name \<open>myhost.sensu.local\<close> and
  port \<open>3456\<close>, \<open>extractMetrics\<close> succeeds with exactly seven metric families, in the order
  active, accepts, handled, requests, reading, writing, waiting, with the values 33, 1237, 89,
  91, 55, 767 and 1234. Each family has one sample with the labels host and port; active,
  reading, writing and waiting are gauges and accepts, handled and requests are counters, as
  the table \<open>metricHelp\<close> says. The reading of the clock is arbitrary.
\<close>

theorem extractMetrics_scenario_A: "extractMetrics now allLinesOk ''myhost.sensu.local'' ''3456'' =
  (Some
   [\<lparr>Name = ''nginx_active'', Help = ''number of active connections'', Type = GAUGE,
       Metric = [\<lparr>Label = [\<lparr>labelName = ''host'', labelValue = ''myhost.sensu.local''\<rparr>,
              \<lparr>labelName = ''port'', labelValue = ''3456''\<rparr>],
             Gauge = Some 33, Counter = None, TimestampMs = now\<rparr>]\<rparr>,
    \<lparr>Name = ''nginx_accepts'', Help = ''accepted connections'', Type = COUNTER,
       Metric = [\<lparr>Label = [\<lparr>labelName = ''host'', labelValue = ''myhost.sensu.local''\<rparr>,
              \<lparr>labelName = ''port'', labelValue = ''3456''\<rparr>],
             Gauge = None, Counter = Some 1237, TimestampMs = now\<rparr>]\<rparr>,
    \<lparr>Name = ''nginx_handled'', Help = ''handled connections'', Type = COUNTER,
       Metric = [\<lparr>Label = [\<lparr>labelName = ''host'', labelValue = ''myhost.sensu.local''\<rparr>,
              \<lparr>labelName = ''port'', labelValue = ''3456''\<rparr>],
             Gauge = None, Counter = Some 89, TimestampMs = now\<rparr>]\<rparr>,
    \<lparr>Name = ''nginx_requests'', Help = ''handled requests'', Type = COUNTER,
       Metric = [\<lparr>Label = [\<lparr>labelName = ''host'', labelValue = ''myhost.sensu.local''\<rparr>,
              \<lparr>labelName = ''port'', labelValue = ''3456''\<rparr>],
             Gauge = None, Counter = Some 91, TimestampMs = now\<rparr>]\<rparr>,
    \<lparr>Name = ''nginx_reading'', Help = ''reading requests'', Type = GAUGE,
       Metric = [\<lparr>Label = [\<lparr>labelName = ''host'', labelValue = ''myhost.sensu.local''\<rparr>,
              \<lparr>labelName = ''port'', labelValue = ''3456''\<rparr>],
             Gauge = Some 55, Counter = None, TimestampMs = now\<rparr>]\<rparr>,
    \<lparr>Name = ''nginx_writing'', Help = ''writing requests'', Type = GAUGE,
       Metric = [\<lparr>Label = [\<lparr>labelName = ''host'', labelValue = ''myhost.sensu.local''\<rparr>,
              \<lparr>labelName = ''port'', labelValue = ''3456''\<rparr>],
             Gauge = Some 767, Counter = None, TimestampMs = now\<rparr>]\<rparr>,
    \<lparr>Name = ''nginx_waiting'', Help = ''keep-alive connections'', Type = GAUGE,
       Metric = [\<lparr>Label = [\<lparr>labelName = ''host'', labelValue = ''myhost.sensu.local''\<rparr>,
              \<lparr>labelName = ''port'', labelValue = ''3456''\<rparr>],
             Gauge = Some 1234, Counter = None, TimestampMs = now\<rparr>]\<rparr>], None)"
  by (simp add: extractMetrics_success [OF readLines_allLinesOk okLines_match(1) okLines_parse(1)
        okLines_match(2) okLines_parse(2,3,4) okLines_match(3) okLines_parse(5,6,7)]
      addNewMetric_names okLines_float)

text \<open>
  C1, at one reading of the clock: there is a list of metrics and no error.
\<close>

theorem extractMetrics_scenario_A_witness:
  "fst (extractMetrics 1700000000000 allLinesOk ''myhost.sensu.local'' ''3456'') \<noteq> None
 \<and> snd (extractMetrics 1700000000000 allLinesOk ''myhost.sensu.local'' ''3456'') = None"
  using extractMetrics_scenario_A [of 1700000000000] by simp

text \<open>
  C2. When the third or the fourth line does not match its pattern, the error names the
  number of that line, but the content it shows is the content of the first line
  (\<^verbatim>\<open>lines[0]\<close> on lines 113 and 137 of the source), not the content of the line that did
  not match. On the payloads of the tests \<^verbatim>\<open>invalid line 3\<close> and \<^verbatim>\<open>invalid line 4\<close>:
\<close>

theorem line3_error_shows_line1:
  "extractMetrics now payloadBadLine3 h p =
     (None, Some (''unexpected input for line 3: '' @ outputLine1Ok))
   \<and> outputLine3Bad \<noteq> outputLine1Ok
   \<and> extractMetrics now payloadBadLine4 h p =
     (None, Some (''unexpected input for line 4: '' @ outputLine1Ok))
   \<and> outputLine4Bad \<noteq> outputLine1Ok"
proof -
  have "length (line3Regex outputLine3Bad) \<noteq> 4" by (simp add: badLines_match)
  from extractMetrics_line3 [OF readLines_payloadBadLine3 okLines_match(1) okLines_parse(1) this]
  have a: "extractMetrics now payloadBadLine3 h p =
     (None, Some (''unexpected input for line 3: '' @ outputLine1Ok))" .
  have "length (line4Regex outputLine4Bad) \<noteq> 4" by (simp add: badLines_match)
  from extractMetrics_line4 [OF readLines_payloadBadLine4 okLines_match(1) okLines_parse(1)
      okLines_match(2) okLines_parse(2,3,4) this]
  have b: "extractMetrics now payloadBadLine4 h p =
     (None, Some (''unexpected input for line 4: '' @ outputLine1Ok))" .
  have "outputLine3Bad \<noteq> outputLine1Ok" "outputLine4Bad \<noteq> outputLine1Ok"
    by (simp_all add: outputLine3Bad_def outputLine4Bad_def outputLine1Ok_def)
  with a b show ?thesis by simp
qed

text \<open>
  C3, amended. For every payload whose lines are all shorter than 65536 bytes, when the number
  \<open>n\<close> of its non-blank lines is not 4, \<open>extractMetrics\<close> returns no metrics and the error
  \<^verbatim>\<open>4 output lines are expected, got n\<close>, with \<open>n\<close> in decimal.
\<close>

theorem line_count_error:
  assumes "\<forall>l\<in>set (splitLines content). length l < maxScanTokenSize"
    and "length (nonBlankLines content) \<noteq> 4"
  shows "extractMetrics now content h p =
      (None, Some (''4 output lines are expected, got '' @ showNat (length (nonBlankLines content))))
    \<and> decimalValue (showNat (length (nonBlankLines content))) = length (nonBlankLines content)"
  using assms extractMetrics_count [of content now h p]
  by (simp add: readLines_nonBlankLines decimalValue_showNat)

text \<open>
  C3, amended, on the payload of the test \<^verbatim>\<open>one line missing\<close>.
\<close>

theorem line_count_error_witness:
  "extractMetrics 0 payloadThreeLines ''myhost.sensu.local'' ''3456'' =
     (None, Some ''4 output lines are expected, got 3'')"
proof -
  have sp: "splitLines payloadThreeLines = [outputLine1Ok, outputLine2Ok, outputLine3Ok, []]"
    by (simp add: payloadThreeLines_def splitLines_line okLines_facts)
  have short: "\<forall>l\<in>set (splitLines payloadThreeLines). length l < maxScanTokenSize"
    by (simp add: sp okLines_facts) (simp add: maxScanTokenSize_def)
  have nb: "nonBlankLines payloadThreeLines = [outputLine1Ok, outputLine2Ok, outputLine3Ok]"
    by (simp add: nonBlankLines_def sp okLines_trim okLines_nonempty)
  then have "length (nonBlankLines payloadThreeLines) \<noteq> 4" by simp
  from line_count_error [OF short this, of 0 "''myhost.sensu.local''" "''3456''"]
  show ?thesis by (simp add: nb showNat_digit digitChar_def)
qed

text \<open>
  C3 as stated fails. The payload of the tests followed by a fifth line of 65536 bytes has
  five non-blank lines; the scanner stops at the fifth line without delivering it,
  \<open>extractMetrics\<close> sees four lines, and it succeeds.
\<close>

theorem line_count_counterexample:
  "length (nonBlankLines payloadLongLine5) = 5
 \<and> extractMetrics 0 payloadLongLine5 ''myhost.sensu.local'' ''3456'' =
     (Some (buildMetrics 0 ''myhost.sensu.local'' ''3456'' [33, 1237, 89, 91, 55, 767, 1234]), None)"
proof -
  have sp: "splitLines payloadLongLine5 =
      [outputLine1Ok, outputLine2Ok, outputLine3Ok, outputLine4Ok, longLine 65536]"
    by (simp add: payloadLongLine5_def allLinesOk_def splitLines_line splitLines_no_LF okLines_facts
        longLine_facts)
  have a: "length (nonBlankLines payloadLongLine5) = 5"
    by (simp add: nonBlankLines_def sp okLines_trim okLines_nonempty longLine_facts)
  have long: "maxScanTokenSize \<le> length (longLine 65536)"
    by (simp add: longLine_facts maxScanTokenSize_def)
  have rl: "readLines payloadLongLine5 [] = [outputLine1Ok, outputLine2Ok, outputLine3Ok, outputLine4Ok]"
    by (simp add: payloadLongLine5_def allLinesOk_def readLines_line okLines_facts okLines_trim
        okLines_nonempty readLines_last_too_long [OF _ long] longLine_facts(1))
  have b: "extractMetrics 0 payloadLongLine5 ''myhost.sensu.local'' ''3456'' =
     (Some (buildMetrics 0 ''myhost.sensu.local'' ''3456'' [33, 1237, 89, 91, 55, 767, 1234]), None)"
    by (rule extractMetrics_success_build [OF rl okLines_match(1) okLines_parse(1)
        okLines_match(2) okLines_parse(2,3,4) okLines_match(3) okLines_parse(5,6,7)])
  from a b show ?thesis by simp
qed

text \<open>
  C4. Whenever \<open>extractMetrics\<close> returns metrics, there are seven of them, and each has
  exactly one sample, whose time stamp is the reading of the clock taken at the start, whose
  labels are exactly host and port with the values given by the caller, and which holds
  exactly one of a gauge value and a counter value.
\<close>

theorem extractMetrics_one_timestamp:
  assumes "extractMetrics nowMS content hostname port = (Some ms, err)"
  shows "length ms = 7 \<and>
    (\<forall>f\<in>set ms. \<exists>m. Metric f = [m] \<and> TimestampMs m = nowMS
        \<and> Label m = [\<lparr>labelName = ''host'', labelValue = hostname\<rparr>,
                      \<lparr>labelName = ''port'', labelValue = port\<rparr>]
        \<and> (Gauge m = None) \<noteq> (Counter m = None))"
proof -
  from assms extractMetrics_cases [of nowMS content hostname port]
  obtain v1 v2 v3 v4 v5 v6 v7 where "ms = buildMetrics nowMS hostname port [v1, v2, v3, v4, v5, v6, v7]"
    by auto
  then show ?thesis by (simp add: buildMetrics_seven)
qed

text \<open>
  C4 on the payload of the tests: the time stamps and the labels of the seven families.
\<close>

theorem extractMetrics_one_timestamp_witness:
  "map (\<lambda>f. map TimestampMs (Metric f))
      (the (fst (extractMetrics 1700000000000 allLinesOk ''myhost.sensu.local'' ''3456'')))
     = replicate 7 [1700000000000]
 \<and> map (\<lambda>f. map Label (Metric f))
      (the (fst (extractMetrics 1700000000000 allLinesOk ''myhost.sensu.local'' ''3456'')))
     = replicate 7 [ [\<lparr>labelName = ''host'', labelValue = ''myhost.sensu.local''\<rparr>,
                      \<lparr>labelName = ''port'', labelValue = ''3456''\<rparr>] ]"
proof -
  let ?ms = "buildMetrics 1700000000000 ''myhost.sensu.local'' ''3456'' [33, 1237, 89, 91, 55, 767, 1234]"
  have ev: "extractMetrics 1700000000000 allLinesOk ''myhost.sensu.local'' ''3456'' = (Some ?ms, None)"
    by (rule extractMetrics_allLinesOk)
  from extractMetrics_one_timestamp [OF ev]
  have len: "length ?ms = 7"
    and all: "\<forall>f\<in>set ?ms. \<exists>m. Metric f = [m] \<and> TimestampMs m = 1700000000000
        \<and> Label m = [\<lparr>labelName = ''host'', labelValue = ''myhost.sensu.local''\<rparr>,
                      \<lparr>labelName = ''port'', labelValue = ''3456''\<rparr>]
        \<and> (Gauge m = None) \<noteq> (Counter m = None)"
    by blast+
  from all have "map (\<lambda>f. map TimestampMs (Metric f)) ?ms = map (\<lambda>f. [1700000000000]) ?ms"
    by (intro map_cong) auto
  then have a: "map (\<lambda>f. map TimestampMs (Metric f)) ?ms = replicate 7 [1700000000000]"
    by (simp only: map_replicate_const len)
  from all have "map (\<lambda>f. map Label (Metric f)) ?ms =
      map (\<lambda>f. [ [\<lparr>labelName = ''host'', labelValue = ''myhost.sensu.local''\<rparr>,
                      \<lparr>labelName = ''port'', labelValue = ''3456''\<rparr>] ]) ?ms"
    by (intro map_cong) auto
  then have b: "map (\<lambda>f. map Label (Metric f)) ?ms =
      replicate 7 [ [\<lparr>labelName = ''host'', labelValue = ''myhost.sensu.local''\<rparr>,
                      \<lparr>labelName = ''port'', labelValue = ''3456''\<rparr>] ]"
    by (simp only: map_replicate_const len)
  from a b show ?thesis by (simp only: ev fst_conv option.sel)
qed

text \<open>
  C5. For every payload, \<open>extractMetrics\<close> returns either an error and no list of metrics, or
  no error and a list of exactly seven metrics: never a shorter list.
\<close>

theorem extractMetrics_all_or_nothing:
  "(\<exists>e. extractMetrics now content h p = (None, Some e))
 \<or> (\<exists>ms. extractMetrics now content h p = (Some ms, None) \<and> length ms = 7)"
  using extractMetrics_cases [of now content h p] length_buildMetrics_seven by metis

text \<open>
  C5 on a payload whose first two fields parse and whose third field, handled, is out of
  range (an error, and no list although two fields had been parsed), and on the payload of
  the tests (seven metrics).
\<close>

theorem extractMetrics_all_or_nothing_witness:
  "snd (extractMetrics 0 payloadBigHandled ''myhost.sensu.local'' ''3456'') \<noteq> None
 \<and> fst (extractMetrics 0 payloadBigHandled ''myhost.sensu.local'' ''3456'') = None
 \<and> length (the (fst (extractMetrics 0 allLinesOk ''myhost.sensu.local'' ''3456''))) = 7"
proof -
  have "ParseUint ''18446744073709551616'' =
      Inl \<lparr>Func = ''ParseUint'', Num = ''18446744073709551616'', Err = ErrRange\<rparr>"
    by (simp add: ParseUint_digits isDigit_def decimalValue_def)
  from extractMetrics_handled [OF readLines_payloadBigHandled okLines_match(1) okLines_parse(1)
      bigHandled_facts(4) okLines_parse(2) this]
  have a: "snd (extractMetrics 0 payloadBigHandled ''myhost.sensu.local'' ''3456'') \<noteq> None"
    by simp
  with extractMetrics_all_or_nothing [of 0 payloadBigHandled "''myhost.sensu.local''" "''3456''"]
  have b: "fst (extractMetrics 0 payloadBigHandled ''myhost.sensu.local'' ''3456'') = None"
    by auto
  have "snd (extractMetrics 0 allLinesOk ''myhost.sensu.local'' ''3456'') = None"
    by (simp add: extractMetrics_allLinesOk)
  with extractMetrics_all_or_nothing [of 0 allLinesOk "''myhost.sensu.local''" "''3456''"]
  have c: "length (the (fst (extractMetrics 0 allLinesOk ''myhost.sensu.local'' ''3456''))) = 7"
    by auto
  from a b c show ?thesis by (intro conjI)
qed

text \<open>
  C6, amended. For every payload, adding white space (any bytes that \<open>TrimSpace\<close> removes,
  line feeds included) in front of any of its lines and behind them gives a payload on which
  \<open>extractMetrics\<close> returns the same result, provided that every line of the new payload is
  shorter than 65536 bytes.
\<close>

theorem whitespace_insensitive:
  assumes "length as = length (splitLines content)" and "length bs = length (splitLines content)"
    and "\<forall>a\<in>set as. whiteSpace a" and "\<forall>b\<in>set bs. whiteSpace b"
    and "\<forall>l\<in>set (splitLines (joinLines (padLines as (splitLines content) bs))).
           length l < maxScanTokenSize"
  shows "extractMetrics now (joinLines (padLines as (splitLines content) bs)) h p =
     extractMetrics now content h p"
proof -
  let ?ls = "splitLines content"
  let ?ps = "padLines as ?ls bs"
  have lf: "\<forall>l\<in>set ?ls. LF \<notin> set l" using splitLines_lines_no_LF by blast
  have props: "filter (\<lambda>l. l \<noteq> []) (map TrimSpace (concat (map splitLines ?ps))) =
      filter (\<lambda>l. l \<noteq> []) (map TrimSpace ?ls)
    \<and> (\<forall>l\<in>set ?ls. \<exists>x\<in>set (concat (map splitLines ?ps)). length l \<le> length x)
    \<and> length ?ps = length ?ls"
    using assms(1) assms(2) [symmetric] assms(3,4) lf by (rule padLines_nonBlank)
  then have "?ps \<noteq> []" by (metis length_0_conv splitLines_not_Nil)
  then have sp: "splitLines (joinLines ?ps) = concat (map splitLines ?ps)"
    by (rule splitLines_joinLines_concat)
  have nb: "nonBlankLines (joinLines ?ps) = nonBlankLines content"
    using props by (simp add: nonBlankLines_def sp)
  have short: "\<forall>l\<in>set ?ls. length l < maxScanTokenSize"
  proof
    fix l assume "l \<in> set ?ls"
    with props obtain x where "x \<in> set (splitLines (joinLines ?ps))" "length l \<le> length x"
      unfolding sp by blast
    with assms(5) show "length l < maxScanTokenSize" by fastforce
  qed
  have "readLines (joinLines ?ps) [] = nonBlankLines (joinLines ?ps)"
    using assms(5) by (rule readLines_nonBlankLines)
  moreover have "readLines content [] = nonBlankLines content"
    using short by (rule readLines_nonBlankLines)
  ultimately have "readLines (joinLines ?ps) [] = readLines content []" using nb by simp
  then show ?thesis by (rule extractMetrics_cong_lines)
qed

text \<open>
  C6, amended, on the payload of the test \<^verbatim>\<open>happy output with spaces\<close>.
\<close>

theorem whitespace_insensitive_witness:
  "extractMetrics 0 (joinLines (padLines spacesBefore (splitLines allLinesOk) spacesAfter))
      ''myhost.sensu.local'' ''3456'' =
   extractMetrics 0 allLinesOk ''myhost.sensu.local'' ''3456''
 \<and> joinLines (padLines spacesBefore (splitLines allLinesOk) spacesAfter) =
     ''   '' @ outputLine1Ok @ ''  '' @ [LF] @ ''  '' @ outputLine2Ok @ '' '' @ [LF]
       @ ''  '' @ outputLine3Ok @ ''   '' @ [LF] @ ''  '' @ outputLine4Ok @ ''  '' @ [LF]"
proof -
  have a: "length spacesBefore = length (splitLines allLinesOk)"
    and b: "length spacesAfter = length (splitLines allLinesOk)"
    by (simp_all add: spacesBefore_def spacesAfter_def splitLines_allLinesOk)
  have c: "\<forall>a\<in>set spacesBefore. whiteSpace a"
    and d: "\<forall>b\<in>set spacesAfter. whiteSpace b"
    using whiteSpace_spaces by (simp_all add: spacesBefore_def spacesAfter_def)
  have pl: "padLines spacesBefore (splitLines allLinesOk) spacesAfter =
      [''   '' @ outputLine1Ok @ ''  '', ''  '' @ outputLine2Ok @ '' '',
       ''  '' @ outputLine3Ok @ ''   '', ''  '' @ outputLine4Ok @ ''  '', []]"
    by (simp add: padLines_def spacesBefore_def spacesAfter_def splitLines_allLinesOk)
  have nolf: "\<forall>l\<in>set (padLines spacesBefore (splitLines allLinesOk) spacesAfter). LF \<notin> set l"
    unfolding pl by (simp add: okLines_facts) (simp add: LF_def)
  have sp: "splitLines (joinLines (padLines spacesBefore (splitLines allLinesOk) spacesAfter)) =
      padLines spacesBefore (splitLines allLinesOk) spacesAfter"
    using nolf by (intro splitLines_joinLines) (simp_all add: pl)
  have e: "\<forall>l\<in>set (splitLines (joinLines (padLines spacesBefore (splitLines allLinesOk) spacesAfter))).
      length l < maxScanTokenSize"
    unfolding sp unfolding pl
    by (simp add: outputLine1Ok_def outputLine2Ok_def outputLine3Ok_def outputLine4Ok_def
        maxScanTokenSize_def)
  have f: "joinLines (padLines spacesBefore (splitLines allLinesOk) spacesAfter) =
     ''   '' @ outputLine1Ok @ ''  '' @ [LF] @ ''  '' @ outputLine2Ok @ '' '' @ [LF]
       @ ''  '' @ outputLine3Ok @ ''   '' @ [LF] @ ''  '' @ outputLine4Ok @ ''  '' @ [LF]"
    unfolding pl by simp
  from whitespace_insensitive [OF a b c d e, of 0 "''myhost.sensu.local''" "''3456''"] f
  show ?thesis by simp
qed

text \<open>
  C6 as stated fails. With a second line of 65535 bytes \<open>extractMetrics\<close> succeeds; one space
  added behind that line makes it 65536 bytes long, the scanner stops there, and
  \<open>extractMetrics\<close> fails with a count of one line.
\<close>

theorem whitespace_insensitive_counterexample:
  "whiteSpace '' '' \<and> LF \<notin> set '' ''
 \<and> extractMetrics 0 (payloadLongLine2 65535) ''myhost.sensu.local'' ''3456'' =
     (Some (buildMetrics 0 ''myhost.sensu.local'' ''3456'' [33, 1237, 89, 91, 55, 767, 1234]), None)
 \<and> extractMetrics 0
      (joinLines (padLines ['''', '''', '''', '''', ''''] (splitLines (payloadLongLine2 65535))
         ['''', '' '', '''', '''', '''']))
      ''myhost.sensu.local'' ''3456'' =
     (None, Some ''4 output lines are expected, got 1'')"
proof -
  have a: "whiteSpace '' ''" "LF \<notin> set '' ''"
    by (simp_all add: whiteSpace_spaces LF_def)
  have rl: "readLines (payloadLongLine2 65535) [] =
      [outputLine1Ok, longLine 65535, outputLine3Ok, outputLine4Ok]"
    by (rule readLines_payloadLongLine2_short) (simp_all add: maxScanTokenSize_def)
  have b: "extractMetrics 0 (payloadLongLine2 65535) ''myhost.sensu.local'' ''3456'' =
     (Some (buildMetrics 0 ''myhost.sensu.local'' ''3456'' [33, 1237, 89, 91, 55, 767, 1234]), None)"
    by (rule extractMetrics_success_build [OF rl okLines_match(1) okLines_parse(1)
        okLines_match(2) okLines_parse(2,3,4) okLines_match(3) okLines_parse(5,6,7)])
  have j: "joinLines (padLines ['''', '''', '''', '''', ''''] (splitLines (payloadLongLine2 65535))
         ['''', '' '', '''', '''', '''']) =
      outputLine1Ok @ [LF] @ (longLine 65535 @ '' '') @ [LF] @ (outputLine3Ok @ [LF] @ outputLine4Ok @ [LF])"
    by (simp add: splitLines_payloadLongLine2 padLines_def)
  have "readLines (outputLine1Ok @ [LF] @ (longLine 65535 @ '' '') @ [LF]
      @ (outputLine3Ok @ [LF] @ outputLine4Ok @ [LF])) [] = [outputLine1Ok]"
  proof (rule readLines_line2_too_long)
    have "LF \<notin> set '' ''" by (simp add: LF_def)
    then show "LF \<notin> set (longLine 65535 @ '' '')" by (simp add: longLine_facts)
    show "maxScanTokenSize \<le> length (longLine 65535 @ '' '')"
      by (simp add: longLine_facts maxScanTokenSize_def)
  qed
  then have "length (readLines (joinLines (padLines ['''', '''', '''', '''', '''']
      (splitLines (payloadLongLine2 65535)) ['''', '' '', '''', '''', ''''])) []) = 1"
    by (simp only: j list.size)
  then have c: "extractMetrics 0
      (joinLines (padLines ['''', '''', '''', '''', ''''] (splitLines (payloadLongLine2 65535))
         ['''', '' '', '''', '''', '''']))
      ''myhost.sensu.local'' ''3456'' =
     (None, Some ''4 output lines are expected, got 1'')"
    by (simp add: extractMetrics_count showNat_1)
  from a b c show ?thesis by (intro conjI)
qed

text \<open>
  C7, amended. For every payload whose lines are all shorter than 65536 bytes and that has
  exactly four non-blank lines, when the first, third and fourth of them match their patterns
  and the seven numbers fit in 64 bits, \<open>extractMetrics\<close> succeeds with the seven values,
  whatever the second non-blank line is.
\<close>

theorem line2_not_matched:
  assumes "\<forall>l\<in>set (splitLines content). length l < maxScanTokenSize"
    and "nonBlankLines content = [l1, l2, l3, l4]"
    and "line1Regex l1 = [w1, a]"
    and "line3Regex l3 = [w3, b, c, d]"
    and "line4Regex l4 = [w4, r, w, g]"
    and "list_all fitsUint64 [a, b, c, d, r, w, g]"
  shows "extractMetrics now content h p =
        (Some (buildMetrics now h p (map (\<lambda>s. of_nat (decimalValue s)) [a, b, c, d, r, w, g])), None)"
proof -
  from assms(1,2) have "readLines content [] = [l1, l2, l3, l4]"
    by (simp add: readLines_nonBlankLines)
  from this assms(3-6) show ?thesis by (rule extractMetrics_valid)
qed

text \<open>
  C7, amended, with a second line of 65535 letters.
\<close>

theorem line2_not_matched_witness:
  "extractMetrics 0 (payloadLongLine2 65535) ''myhost.sensu.local'' ''3456'' =
     (Some (buildMetrics 0 ''myhost.sensu.local'' ''3456'' [33, 1237, 89, 91, 55, 767, 1234]), None)"
proof -
  have short: "\<forall>l\<in>set (splitLines (payloadLongLine2 65535)). length l < maxScanTokenSize"
    by (simp add: splitLines_payloadLongLine2 okLines_facts longLine_facts)
      (simp add: maxScanTokenSize_def)
  have nb: "nonBlankLines (payloadLongLine2 65535) =
      [outputLine1Ok, longLine 65535, outputLine3Ok, outputLine4Ok]"
    by (simp add: nonBlankLines_def splitLines_payloadLongLine2 okLines_trim okLines_nonempty
        longLine_facts)
  have fits: "list_all fitsUint64 [''33'', ''1237'', ''89'', ''91'', ''55'', ''767'', ''1234'']"
    by (simp add: fitsUint64_def decimalValue_def)
  from line2_not_matched [OF short nb okLines_match fits, of 0 "''myhost.sensu.local''" "''3456''"]
  show ?thesis by (simp add: decimalValue_def)
qed

text \<open>
  C7 as stated fails. With a second line of 65536 letters the payload has four non-blank
  lines and its first, third and fourth lines are valid, but the scanner stops at the second
  line and \<open>extractMetrics\<close> fails with a count of one line.
\<close>

theorem line2_not_matched_counterexample:
  "nonBlankLines (payloadLongLine2 65536) = [outputLine1Ok, longLine 65536, outputLine3Ok, outputLine4Ok]
 \<and> line1Regex outputLine1Ok = [outputLine1Ok, ''33'']
 \<and> line3Regex outputLine3Ok = [outputLine3Ok, ''1237'', ''89'', ''91'']
 \<and> line4Regex outputLine4Ok = [outputLine4Ok, ''55'', ''767'', ''1234'']
 \<and> list_all fitsUint64 [''33'', ''1237'', ''89'', ''91'', ''55'', ''767'', ''1234'']
 \<and> extractMetrics 0 (payloadLongLine2 65536) ''myhost.sensu.local'' ''3456'' =
     (None, Some ''4 output lines are expected, got 1'')"
proof -
  have a: "nonBlankLines (payloadLongLine2 65536) =
      [outputLine1Ok, longLine 65536, outputLine3Ok, outputLine4Ok]"
    by (simp add: nonBlankLines_def splitLines_payloadLongLine2 okLines_trim okLines_nonempty
        longLine_facts)
  have b: "list_all fitsUint64 [''33'', ''1237'', ''89'', ''91'', ''55'', ''767'', ''1234'']"
    by (simp add: fitsUint64_def decimalValue_def)
  have "readLines (outputLine1Ok @ [LF] @ longLine 65536 @ [LF]
      @ (outputLine3Ok @ [LF] @ outputLine4Ok @ [LF])) [] = [outputLine1Ok]"
    by (rule readLines_line2_too_long) (simp_all add: longLine_facts maxScanTokenSize_def)
  then have "length (readLines (payloadLongLine2 65536) []) = 1"
    by (simp only: payloadLongLine2_def list.size)
  then have c: "extractMetrics 0 (payloadLongLine2 65536) ''myhost.sensu.local'' ''3456'' =
     (None, Some ''4 output lines are expected, got 1'')"
    by (simp add: extractMetrics_count showNat_1)
  from a okLines_match b c show ?thesis by (intro conjI)
qed

text \<open>
  C8. When the payload is read as four lines, every group captured in the first, third and
  fourth line is a non-empty string of decimal digits, and the number it denotes is accepted
  exactly when it is below \<open>2 ^ 64\<close>. A number that is not makes \<open>extractMetrics\<close> fail with
  the error of its field, the first such field in the order active, accepts, handled,
  requests, reading, writing, waiting: the message names the field
  (\<^verbatim>\<open>invalid number of connections\<close> for active, \<^verbatim>\<open>invalid accepts value\<close> and so on for
  the others) and carries the range error of \<open>ParseUint\<close>. When all seven numbers are below
  \<open>2 ^ 64\<close>, \<open>extractMetrics\<close> succeeds and the values are these numbers.
\<close>

theorem extractMetrics_field_range:
  assumes lines: "readLines content [] = [l1, l2, l3, l4]"
    and m1: "line1Regex l1 = [w1, a]"
  shows "a \<noteq> [] \<and> list_all isDigit a
    \<and> (\<not> fitsUint64 a \<longrightarrow>
        extractMetrics now content h p =
          (None, Some (''invalid number of connections: '' @ rangeError a)))
    \<and> (fitsUint64 a \<and> line3Regex l3 = [w3, b, c, d] \<longrightarrow>
        list_all (\<lambda>s. s \<noteq> [] \<and> list_all isDigit s) [b, c, d]
      \<and> (\<not> fitsUint64 b \<longrightarrow>
          extractMetrics now content h p =
            (None, Some (''invalid accepts value: '' @ rangeError b)))
      \<and> (fitsUint64 b \<and> \<not> fitsUint64 c \<longrightarrow>
          extractMetrics now content h p =
            (None, Some (''invalid handled value: '' @ rangeError c)))
      \<and> (fitsUint64 b \<and> fitsUint64 c \<and> \<not> fitsUint64 d \<longrightarrow>
          extractMetrics now content h p =
            (None, Some (''invalid requests value: '' @ rangeError d)))
      \<and> (fitsUint64 b \<and> fitsUint64 c \<and> fitsUint64 d \<and> line4Regex l4 = [w4, r, w, g] \<longrightarrow>
          list_all (\<lambda>s. s \<noteq> [] \<and> list_all isDigit s) [r, w, g]
        \<and> (\<not> fitsUint64 r \<longrightarrow>
            extractMetrics now content h p =
              (None, Some (''invalid reading value: '' @ rangeError r)))
        \<and> (fitsUint64 r \<and> \<not> fitsUint64 w \<longrightarrow>
            extractMetrics now content h p =
              (None, Some (''invalid writing value: '' @ rangeError w)))
        \<and> (fitsUint64 r \<and> fitsUint64 w \<and> \<not> fitsUint64 g \<longrightarrow>
            extractMetrics now content h p =
              (None, Some (''invalid waiting value: '' @ rangeError g)))
        \<and> (fitsUint64 r \<and> fitsUint64 w \<and> fitsUint64 g \<longrightarrow>
            extractMetrics now content h p =
              (Some (buildMetrics now h p
                 (map (\<lambda>s. of_nat (decimalValue s)) [a, b, c, d, r, w, g])), None))))"
proof -
  note c1 = FindStringSubmatch_capture1 [OF m1]
  have p1: "\<not> fitsUint64 a \<longrightarrow>
        extractMetrics now content h p =
          (None, Some (''invalid number of connections: '' @ rangeError a))"
    using c1 extractMetrics_active [OF lines m1 ParseUint_not_fitsUint64, of now h p]
    by (simp add: NumError_Error_range)
  have p3: "list_all (\<lambda>s. s \<noteq> [] \<and> list_all isDigit s) [b, c, d]
      \<and> (\<not> fitsUint64 b \<longrightarrow>
          extractMetrics now content h p =
            (None, Some (''invalid accepts value: '' @ rangeError b)))
      \<and> (fitsUint64 b \<and> \<not> fitsUint64 c \<longrightarrow>
          extractMetrics now content h p =
            (None, Some (''invalid handled value: '' @ rangeError c)))
      \<and> (fitsUint64 b \<and> fitsUint64 c \<and> \<not> fitsUint64 d \<longrightarrow>
          extractMetrics now content h p =
            (None, Some (''invalid requests value: '' @ rangeError d)))
      \<and> (fitsUint64 b \<and> fitsUint64 c \<and> fitsUint64 d \<and> line4Regex l4 = [w4, r, w, g] \<longrightarrow>
          list_all (\<lambda>s. s \<noteq> [] \<and> list_all isDigit s) [r, w, g]
        \<and> (\<not> fitsUint64 r \<longrightarrow>
            extractMetrics now content h p =
              (None, Some (''invalid reading value: '' @ rangeError r)))
        \<and> (fitsUint64 r \<and> \<not> fitsUint64 w \<longrightarrow>
            extractMetrics now content h p =
              (None, Some (''invalid writing value: '' @ rangeError w)))
        \<and> (fitsUint64 r \<and> fitsUint64 w \<and> \<not> fitsUint64 g \<longrightarrow>
            extractMetrics now content h p =
              (None, Some (''invalid waiting value: '' @ rangeError g)))
        \<and> (fitsUint64 r \<and> fitsUint64 w \<and> fitsUint64 g \<longrightarrow>
            extractMetrics now content h p =
              (Some (buildMetrics now h p
                 (map (\<lambda>s. of_nat (decimalValue s)) [a, b, c, d, r, w, g])), None)))"
    if fa: "fitsUint64 a" and m3: "line3Regex l3 = [w3, b, c, d]"
  proof -
    note c3 = FindStringSubmatch_capture3 [OF m3]
    note pa = ParseUint_fitsUint64 [of a]
    have q0: "list_all (\<lambda>s. s \<noteq> [] \<and> list_all isDigit s) [b, c, d]" using c3 by simp
    have q1: "\<not> fitsUint64 b \<longrightarrow>
          extractMetrics now content h p =
            (None, Some (''invalid accepts value: '' @ rangeError b))"
      using c1 c3 fa
        extractMetrics_accepts [OF lines m1 pa m3 ParseUint_not_fitsUint64, of now h p]
      by (simp add: NumError_Error_range)
    have q2: "fitsUint64 b \<and> \<not> fitsUint64 c \<longrightarrow>
          extractMetrics now content h p =
            (None, Some (''invalid handled value: '' @ rangeError c))"
      using c1 c3 fa
        extractMetrics_handled [OF lines m1 pa m3 ParseUint_fitsUint64 ParseUint_not_fitsUint64,
          of now h p]
      by (simp add: NumError_Error_range)
    have q3: "fitsUint64 b \<and> fitsUint64 c \<and> \<not> fitsUint64 d \<longrightarrow>
          extractMetrics now content h p =
            (None, Some (''invalid requests value: '' @ rangeError d))"
      using c1 c3 fa
        extractMetrics_requests [OF lines m1 pa m3 ParseUint_fitsUint64 ParseUint_fitsUint64
          ParseUint_not_fitsUint64, of now h p]
      by (simp add: NumError_Error_range)
    have q4: "list_all (\<lambda>s. s \<noteq> [] \<and> list_all isDigit s) [r, w, g]
        \<and> (\<not> fitsUint64 r \<longrightarrow>
            extractMetrics now content h p =
              (None, Some (''invalid reading value: '' @ rangeError r)))
        \<and> (fitsUint64 r \<and> \<not> fitsUint64 w \<longrightarrow>
            extractMetrics now content h p =
              (None, Some (''invalid writing value: '' @ rangeError w)))
        \<and> (fitsUint64 r \<and> fitsUint64 w \<and> \<not> fitsUint64 g \<longrightarrow>
            extractMetrics now content h p =
              (None, Some (''invalid waiting value: '' @ rangeError g)))
        \<and> (fitsUint64 r \<and> fitsUint64 w \<and> fitsUint64 g \<longrightarrow>
            extractMetrics now content h p =
              (Some (buildMetrics now h p
                 (map (\<lambda>s. of_nat (decimalValue s)) [a, b, c, d, r, w, g])), None))"
      if f3: "fitsUint64 b" "fitsUint64 c" "fitsUint64 d" and m4: "line4Regex l4 = [w4, r, w, g]"
    proof -
      note c4 = FindStringSubmatch_capture4 [OF m4]
      note pb = ParseUint_fitsUint64 [of b] and pc = ParseUint_fitsUint64 [of c]
        and pd = ParseUint_fitsUint64 [of d]
      have s0: "list_all (\<lambda>s. s \<noteq> [] \<and> list_all isDigit s) [r, w, g]" using c4 by simp
      have s1: "\<not> fitsUint64 r \<longrightarrow>
            extractMetrics now content h p =
              (None, Some (''invalid reading value: '' @ rangeError r))"
        using c1 c3 c4 fa f3
          extractMetrics_reading [OF lines m1 pa m3 pb pc pd m4 ParseUint_not_fitsUint64, of now h p]
        by (simp add: NumError_Error_range)
      have s2: "fitsUint64 r \<and> \<not> fitsUint64 w \<longrightarrow>
            extractMetrics now content h p =
              (None, Some (''invalid writing value: '' @ rangeError w))"
        using c1 c3 c4 fa f3
          extractMetrics_writing [OF lines m1 pa m3 pb pc pd m4 ParseUint_fitsUint64
            ParseUint_not_fitsUint64, of now h p]
        by (simp add: NumError_Error_range)
      have s3: "fitsUint64 r \<and> fitsUint64 w \<and> \<not> fitsUint64 g \<longrightarrow>
            extractMetrics now content h p =
              (None, Some (''invalid waiting value: '' @ rangeError g))"
        using c1 c3 c4 fa f3
          extractMetrics_waiting [OF lines m1 pa m3 pb pc pd m4 ParseUint_fitsUint64
            ParseUint_fitsUint64 ParseUint_not_fitsUint64, of now h p]
        by (simp add: NumError_Error_range)
      have s4: "fitsUint64 r \<and> fitsUint64 w \<and> fitsUint64 g \<longrightarrow>
            extractMetrics now content h p =
              (Some (buildMetrics now h p
                 (map (\<lambda>s. of_nat (decimalValue s)) [a, b, c, d, r, w, g])), None)"
        using c1 c3 c4 fa f3
          extractMetrics_success_build [OF lines m1 pa m3 pb pc pd m4 ParseUint_fitsUint64
            ParseUint_fitsUint64 ParseUint_fitsUint64, of now h p]
        by simp
      from s0 s1 s2 s3 s4 show ?thesis by (intro conjI)
    qed
    from q0 q1 q2 q3 q4 show ?thesis by blast
  qed
  from c1 p1 p3 show ?thesis by blast
qed

text \<open>
  C8 on a payload whose field handled is \<open>2 ^ 64\<close>.
\<close>

theorem extractMetrics_field_range_witness:
  "extractMetrics 0 payloadBigHandled ''myhost.sensu.local'' ''3456'' =
     (None, Some (''invalid handled value: strconv.ParseUint: parsing ''
        @ [DQUOTE] @ ''18446744073709551616'' @ [DQUOTE] @ '': value out of range''))
 \<and> decimalValue ''18446744073709551616'' = 2 ^ 64"
proof -
  have v: "fitsUint64 ''33''" "fitsUint64 ''1237''" "\<not> fitsUint64 ''18446744073709551616''"
    "decimalValue ''18446744073709551616'' = 2 ^ 64"
    by (simp_all add: fitsUint64_def decimalValue_def)
  from extractMetrics_field_range [OF readLines_payloadBigHandled okLines_match(1),
      where now = 0 and h = "''myhost.sensu.local''" and p = "''3456''"
        and ?w3.0 = outputLine3BigHandled and b = "''1237''" and c = "''18446744073709551616''"
        and d = "''91''"] v bigHandled_facts(4)
  show ?thesis by (simp add: rangeError_def Quote_def)
qed

text \<open>
  C9. \<open>loadData\<close> returns the whole body exactly when the request succeeds with status
  200 and the body is read; a transport failure is returned as it is, any other status gives
  no data and an error with the status code in decimal, and a failure while reading the body
  gives no data and an error that carries the message of the underlying error.
\<close>

theorem loadData_outcomes:
  "(httpGet url timeout = Inl err \<longrightarrow> loadData httpGet url timeout = (None, Some err))
 \<and> (httpGet url timeout = Inr resp \<and> StatusCode resp \<noteq> 200 \<longrightarrow>
      loadData httpGet url timeout =
        (None, Some (''invalid nginx status code: '' @ showInt (StatusCode resp))))
 \<and> (httpGet url timeout = Inr resp \<and> StatusCode resp = 200 \<and> Body resp = Inl err \<longrightarrow>
      loadData httpGet url timeout = (None, Some (''error reading body content: '' @ err)))
 \<and> (httpGet url timeout = Inr resp \<and> StatusCode resp = 200 \<and> Body resp = Inr body \<longrightarrow>
      loadData httpGet url timeout = (Some body, None))
 \<and> (fst (loadData httpGet url timeout) = Some data \<longrightarrow>
      (\<exists>r. httpGet url timeout = Inr r \<and> StatusCode r = 200 \<and> Body r = Inr data))"
  by (auto simp: loadData_def StatusOK_def split: sum.splits)

text \<open>
  C9 on the four outcomes: a refused connection, status 404, a body that cannot be read, and
  status 200 with the payload of the tests.
\<close>

theorem loadData_outcomes_witness:
  "loadData (\<lambda>u t. Inl ''connection refused'') ''http://127.0.0.1:33333'' 10
      = (None, Some ''connection refused'')
 \<and> loadData (\<lambda>u t. Inr \<lparr>StatusCode = 404, Body = Inr ''NOT FOUND''\<rparr>) ''http://h/seriously'' 10
      = (None, Some ''invalid nginx status code: 404'')
 \<and> loadData (\<lambda>u t. Inr \<lparr>StatusCode = 200, Body = Inl ''unexpected EOF''\<rparr>) ''http://h/nginx_status'' 10
      = (None, Some ''error reading body content: unexpected EOF'')
 \<and> loadData (\<lambda>u t. Inr \<lparr>StatusCode = 200, Body = Inr allLinesOk\<rparr>) ''http://h/nginx_status'' 10
      = (Some allLinesOk, None)"
proof -
  have s404: "showInt 404 = ''404''"
    by (simp add: showInt_def showNat_step showNat_digit digitChar_def)
  have a: "loadData (\<lambda>u t. Inl ''connection refused'') ''http://127.0.0.1:33333'' 10
      = (None, Some ''connection refused'')"
    using loadData_outcomes [of "\<lambda>u t. Inl ''connection refused''" "''http://127.0.0.1:33333''" 10
        "''connection refused''"]
    by simp
  have b: "loadData (\<lambda>u t. Inr \<lparr>StatusCode = 404, Body = Inr ''NOT FOUND''\<rparr>) ''http://h/seriously'' 10
      = (None, Some ''invalid nginx status code: 404'')"
    using loadData_outcomes [of "\<lambda>u t. Inr \<lparr>StatusCode = 404, Body = Inr ''NOT FOUND''\<rparr>"
        "''http://h/seriously''" 10 _ "\<lparr>StatusCode = 404, Body = Inr ''NOT FOUND''\<rparr>"] s404
    by simp
  have c: "loadData (\<lambda>u t. Inr \<lparr>StatusCode = 200, Body = Inl ''unexpected EOF''\<rparr>) ''http://h/nginx_status'' 10
      = (None, Some ''error reading body content: unexpected EOF'')"
    using loadData_outcomes [of "\<lambda>u t. Inr \<lparr>StatusCode = 200, Body = Inl ''unexpected EOF''\<rparr>"
        "''http://h/nginx_status''" 10 "''unexpected EOF''"
        "\<lparr>StatusCode = 200, Body = Inl ''unexpected EOF''\<rparr>"]
    by simp
  have d: "loadData (\<lambda>u t. Inr \<lparr>StatusCode = 200, Body = Inr allLinesOk\<rparr>) ''http://h/nginx_status'' 10
      = (Some allLinesOk, None)"
    using loadData_outcomes [of "\<lambda>u t. Inr \<lparr>StatusCode = 200, Body = Inr allLinesOk\<rparr>"
        "''http://h/nginx_status''" 10 _ "\<lparr>StatusCode = 200, Body = Inr allLinesOk\<rparr>" allLinesOk]
    by simp
  from a b c d show ?thesis by blast
qed

text \<open>
  C10. The fields are parsed as unsigned 64-bit integers, up to \<open>2 ^ 64 - 1\<close>, and stored as
  \<^verbatim>\<open>float64\<close>. A value of at most \<open>2 ^ 53\<close> is stored exactly. Above that the conversion
  may round: \<open>2 ^ 53 + 1\<close> is stored as \<open>2 ^ 53\<close>, so the two distinct parsed values
  \<open>2 ^ 53\<close> and \<open>2 ^ 53 + 1\<close> give identical metrics.
\<close>

theorem float64_precision:
  "ParseUint ''18446744073709551615'' = Inr 18446744073709551615
 \<and> unat (18446744073709551615 :: 64 word) = 2 ^ 64 - 1
 \<and> (unat v \<le> 2 ^ 53 \<longrightarrow> float64OfUint64 v = real (unat v))
 \<and> (unat v \<le> 2 ^ 53 \<longrightarrow> name \<in> set metricNames \<longrightarrow>
      (\<exists>f m. addNewMetric [] name v t h p = [f] \<and> Metric f = [m]
         \<and> (Gauge m = Some (real (unat v)) \<or> Counter m = Some (real (unat v)))))
 \<and> ParseUint ''9007199254740992'' = Inr 9007199254740992
 \<and> ParseUint ''9007199254740993'' = Inr 9007199254740993
 \<and> unat (9007199254740992 :: 64 word) = 2 ^ 53
 \<and> unat (9007199254740993 :: 64 word) = 2 ^ 53 + 1
 \<and> float64OfUint64 9007199254740993 = 2 ^ 53
 \<and> addNewMetric ms name 9007199254740992 t h p = addNewMetric ms name 9007199254740993 t h p"
proof -
  have a: "ParseUint ''18446744073709551615'' = Inr 18446744073709551615"
    by (simp add: ParseUint_digits isDigit_def decimalValue_def)
  have b: "unat (18446744073709551615 :: 64 word) = 2 ^ 64 - 1" by simp
  have c: "unat v \<le> 2 ^ 53 \<longrightarrow> float64OfUint64 v = real (unat v)"
    by (simp add: float64OfUint64_exact)
  have d: "unat v \<le> 2 ^ 53 \<longrightarrow> name \<in> set metricNames \<longrightarrow>
      (\<exists>f m. addNewMetric [] name v t h p = [f] \<and> Metric f = [m]
         \<and> (Gauge m = Some (real (unat v)) \<or> Counter m = Some (real (unat v))))"
    by (auto simp: metricNames_def addNewMetric_names float64OfUint64_exact)
  have e: "ParseUint ''9007199254740992'' = Inr 9007199254740992"
    "ParseUint ''9007199254740993'' = Inr 9007199254740993"
    by (simp_all add: ParseUint_digits isDigit_def decimalValue_def)
  have f: "unat (9007199254740992 :: 64 word) = 2 ^ 53" "unat (9007199254740993 :: 64 word) = 2 ^ 53 + 1"
    by simp_all
  have g: "float64OfUint64 9007199254740993 = 2 ^ 53"
    by (simp add: float64OfUint64_tie)
  have i: "addNewMetric ms name 9007199254740992 t h p = addNewMetric ms name 9007199254740993 t h p"
    by (rule addNewMetric_value) (simp add: float64OfUint64_tie)
  from a b c d e f g i show ?thesis by (intro conjI)
qed

text \<open>
  C10 at the value 1237 of the tests and at the counter accepts.
\<close>

theorem float64_precision_witness:
  "float64OfUint64 1237 = 1237
 \<and> addNewMetric [] ''nginx_accepts'' 9007199254740992 0 ''myhost.sensu.local'' ''3456'' =
   addNewMetric [] ''nginx_accepts'' 9007199254740993 0 ''myhost.sensu.local'' ''3456''"
proof -
  have "unat (1237 :: 64 word) \<le> 2 ^ 53" by simp
  with float64_precision [of 1237 "''nginx_accepts''" 0 "''myhost.sensu.local''" "''3456''" "[]"]
  show ?thesis by simp
qed

end
